theory Spec2Isabelle
  imports Complex_Main "HOL-Library.Multiset" "HOL-Library.Sublist"
begin

section \<open>Data model (types/index.ts)\<close>

text \<open>
  A \<open>Track\<close> as declared in the types module. Optional fields are options; the \<open>File\<close>
  handle is opaque and is kept as a name.
\<close>

record Track =
  track_id :: string
  title :: string
  artist :: string
  track_duration :: real
  url :: string
  track_file :: "string option"
  format :: "string option"
  albumArt :: "string option"

datatype RepeatMode = RepeatNone | RepeatOne | RepeatAll

record AudioState =
  isPlaying :: bool
  currentTrack :: "Track option"
  currentTime :: real
  duration :: real
  volume :: real
  isLoading :: bool
  playlist :: "Track list"
  currentIndex :: int
  isShuffled :: bool
  repeatMode :: RepeatMode
  shuffledIndices :: "int list"

definition initialState :: AudioState where
  "initialState =
     \<lparr> isPlaying = False, currentTrack = None, currentTime = 0, duration = 0,
       volume = 8 / 10, isLoading = False, playlist = [], currentIndex = - 1,
       isShuffled = False, repeatMode = RepeatNone, shuffledIndices = [] \<rparr>"

section \<open>JavaScript array primitives\<close>

text \<open>
  \<open>Array.prototype.findIndex\<close>: the index of the first element satisfying the predicate,
  scanning from the left, and \<open>-1\<close> when there is none.
\<close>

fun findIndex_from :: "nat \<Rightarrow> ('a \<Rightarrow> bool) \<Rightarrow> 'a list \<Rightarrow> int" where
  "findIndex_from k P [] = - 1"
| "findIndex_from k P (x # xs) = (if P x then int k else findIndex_from (Suc k) P xs)"

definition findIndex :: "('a \<Rightarrow> bool) \<Rightarrow> 'a list \<Rightarrow> int" where
  "findIndex P xs = findIndex_from 0 P xs"

text \<open>
  An indexed read \<open>xs[i]\<close>. Reading outside the array yields \<open>undefined\<close> in JavaScript,
  which is \<open>None\<close> here.
\<close>

definition js_nth :: "'a list \<Rightarrow> int \<Rightarrow> 'a option" where
  "js_nth xs i = (if 0 \<le> i \<and> i < int (length xs) then Some (xs ! nat i) else None)"

section \<open>Playback sequencer (contexts/AudioContext.tsx)\<close>

definition getNextTrackIndex ::
  "int \<Rightarrow> int \<Rightarrow> bool \<Rightarrow> int list \<Rightarrow> RepeatMode \<Rightarrow> int option" where
  "getNextTrackIndex currentIndex' playlistLength isShuffled' shuffledIndices' repeatMode' =
     (if playlistLength = 0 then Some (- 1)
      else if isShuffled' \<and> length shuffledIndices' > 0 then
        (let currentShuffleIndex = findIndex (\<lambda>idx. idx = currentIndex') shuffledIndices';
             nextShuffleIndex = currentShuffleIndex + 1
         in if nextShuffleIndex < int (length shuffledIndices')
            then js_nth shuffledIndices' nextShuffleIndex
            else if repeatMode' = RepeatAll then js_nth shuffledIndices' 0
            else Some (- 1))
      else
        (let nextIndex = currentIndex' + 1
         in if nextIndex < playlistLength then Some nextIndex
            else if repeatMode' = RepeatAll then Some 0
            else Some (- 1)))"

definition getPreviousTrackIndex ::
  "int \<Rightarrow> int \<Rightarrow> bool \<Rightarrow> int list \<Rightarrow> int option" where
  "getPreviousTrackIndex currentIndex' playlistLength isShuffled' shuffledIndices' =
     (if playlistLength = 0 then Some (- 1)
      else if isShuffled' \<and> length shuffledIndices' > 0 then
        (let currentShuffleIndex = findIndex (\<lambda>idx. idx = currentIndex') shuffledIndices';
             prevShuffleIndex = currentShuffleIndex - 1
         in if prevShuffleIndex \<ge> 0
            then js_nth shuffledIndices' prevShuffleIndex
            else js_nth shuffledIndices' (int (length shuffledIndices') - 1))
      else
        (let prevIndex = currentIndex' - 1
         in if prevIndex \<ge> 0 then Some prevIndex
            else Some (playlistLength - 1)))"

text \<open>The index that \<open>nextTrack\<close> computes from the state it sees.\<close>

definition nextTrack_index :: "AudioState \<Rightarrow> int option" where
  "nextTrack_index s =
     getNextTrackIndex (currentIndex s) (int (length (playlist s))) (isShuffled s)
       (shuffledIndices s) (repeatMode s)"

text \<open>The index that \<open>previousTrack\<close> computes from the state it sees.\<close>

definition previousTrack_index :: "AudioState \<Rightarrow> int option" where
  "previousTrack_index s =
     getPreviousTrackIndex (currentIndex s) (int (length (playlist s))) (isShuffled s)
       (shuffledIndices s)"

section \<open>Shuffle order (contexts/AudioContext.tsx)\<close>

text \<open>
  \<open>Math.random()\<close> is the only source of nondeterminism of the sequencer. The results
  of its future calls, in call order, are a sequence that is passed in and handed back.
  ECMAScript specifies every result to lie in \<open>[0, 1)\<close>.
\<close>

type_synonym rng = "nat \<Rightarrow> real"

definition Math_random :: "rng \<Rightarrow> real \<times> rng" where
  "Math_random r = (r 0, \<lambda>k. r (Suc k))"

text \<open>
  \<open>indices.splice(start, 1)\<close>: a negative start counts from the end, a start beyond the
  end is the end, and at most one element is removed.
\<close>

definition splice1 :: "'a list \<Rightarrow> int \<Rightarrow> 'a list" where
  "splice1 xs start =
     (let len = int (length xs);
          s = (if start < 0 then max (len + start) 0 else min start len)
      in take (nat s) xs @ drop (nat s + 1) xs)"

text \<open>
  The Fisher-Yates loop \<open>for (let i = indices.length - 1; i > 0; i--)\<close>; the first
  argument is the loop counter \<open>i\<close>. The destructuring swap reads both elements before
  it writes \<open>indices[i]\<close> and then \<open>indices[j]\<close>.
\<close>

fun shuffle_loop :: "nat \<Rightarrow> int list \<Rightarrow> rng \<Rightarrow> int list \<times> rng" where
  "shuffle_loop 0 indices r = (indices, r)"
| "shuffle_loop (Suc i') indices r =
     (let i = Suc i';
          (u, r') = Math_random r;
          j = nat \<lfloor>u * real (i + 1)\<rfloor>
      in shuffle_loop i' (indices[i := indices ! j, j := indices ! i]) r')"

definition generateShuffledIndices :: "nat \<Rightarrow> int \<Rightarrow> rng \<Rightarrow> int list \<times> rng" where
  "generateShuffledIndices playlistLength currentIndex' r =
     (let indices = map int [0 ..< playlistLength];
          indices = (if currentIndex' \<ge> 0 then splice1 indices currentIndex' else indices)
      in shuffle_loop (nat (int (length indices) - 1)) indices r)"

section \<open>The reducer (contexts/AudioContext.tsx)\<close>

datatype AudioAction =
    SET_PLAYING bool
  | SET_CURRENT_TRACK "Track option"
  | SET_CURRENT_TIME real
  | SET_DURATION real
  | SET_VOLUME real
  | SET_LOADING bool
  | SET_PLAYLIST "Track list"
  | ADD_TO_PLAYLIST "Track list"
  | REMOVE_FROM_PLAYLIST string
  | SET_CURRENT_INDEX int
  | TOGGLE_SHUFFLE
  | SET_REPEAT_MODE RepeatMode
  | SET_SHUFFLED_INDICES "int list"

fun audioReducer :: "AudioState \<Rightarrow> AudioAction \<Rightarrow> rng \<Rightarrow> AudioState \<times> rng" where
  "audioReducer s (SET_PLAYING b) r = (s\<lparr>isPlaying := b\<rparr>, r)"
| "audioReducer s (SET_CURRENT_TRACK t) r = (s\<lparr>currentTrack := t\<rparr>, r)"
| "audioReducer s (SET_CURRENT_TIME t) r = (s\<lparr>currentTime := t\<rparr>, r)"
| "audioReducer s (SET_DURATION d) r = (s\<lparr>duration := d\<rparr>, r)"
| "audioReducer s (SET_VOLUME v) r = (s\<lparr>volume := v\<rparr>, r)"
| "audioReducer s (SET_LOADING b) r = (s\<lparr>isLoading := b\<rparr>, r)"
| "audioReducer s (SET_PLAYLIST ts) r = (s\<lparr>playlist := ts\<rparr>, r)"
| "audioReducer s (ADD_TO_PLAYLIST ts) r = (s\<lparr>playlist := playlist s @ ts\<rparr>, r)"
| "audioReducer s (REMOVE_FROM_PLAYLIST tid) r =
     (s\<lparr>playlist := filter (\<lambda>track. track_id track \<noteq> tid) (playlist s)\<rparr>, r)"
| "audioReducer s (SET_CURRENT_INDEX i) r = (s\<lparr>currentIndex := i\<rparr>, r)"
| "audioReducer s TOGGLE_SHUFFLE r =
     (if \<not> isShuffled s
      then (let (indices, r') =
                  generateShuffledIndices (length (playlist s)) (currentIndex s) r
            in (s\<lparr>isShuffled := \<not> isShuffled s, shuffledIndices := indices\<rparr>, r'))
      else (s\<lparr>isShuffled := \<not> isShuffled s, shuffledIndices := []\<rparr>, r))"
| "audioReducer s (SET_REPEAT_MODE m) r = (s\<lparr>repeatMode := m\<rparr>, r)"
| "audioReducer s (SET_SHUFFLED_INDICES is) r = (s\<lparr>shuffledIndices := is\<rparr>, r)"

section \<open>The provider: playback engine (contexts/AudioContext.tsx)\<close>

text \<open>
  The playback resource is a Howler \<open>Howl\<close> object, which is outside this repository.
  The engine's side of it is modelled: each instance is identified by its creation
  number, carries the options it was constructed with, and every method the engine
  calls on an instance is appended to a log.
\<close>

datatype HowlCall = Unload | Volume real | Play | Pause | Seek real

record Howl =
  howl_id :: nat
  howl_src :: "string list"
  howl_html5 :: bool
  howl_format :: "string list option"

record Engine =
  state :: AudioState
  currentHowl :: "Howl option"
  howlCalls :: "(nat \<times> HowlCall) list"
  howlsCreated :: nat
  mathRandom :: rng

definition dispatch :: "AudioAction \<Rightarrow> Engine \<Rightarrow> Engine" where
  "dispatch a e =
     (let (s', r') = audioReducer (state e) a (mathRandom e)
      in e\<lparr>state := s', mathRandom := r'\<rparr>)"

definition howlCall :: "Howl \<Rightarrow> HowlCall \<Rightarrow> Engine \<Rightarrow> Engine" where
  "howlCall h c e = e\<lparr>howlCalls := howlCalls e @ [(howl_id h, c)]\<rparr>"

text \<open>
  \<open>playTrack\<close> up to the point where it returns. The callbacks it registers are
  \<open>onload\<close>, \<open>onplay\<close>, \<open>onpause\<close>, \<open>onend\<close> and \<open>onstop\<close>; they run later, as events.
\<close>

definition playTrack :: "Track \<Rightarrow> Engine \<Rightarrow> Engine" where
  "playTrack track e =
     (let e1 = (case currentHowl e of Some h \<Rightarrow> howlCall h Unload e | None \<Rightarrow> e);
          e2 = dispatch (SET_LOADING True) e1;
          e3 = dispatch (SET_CURRENT_TRACK (Some track)) e2;
          trackIndex = findIndex (\<lambda>t. track_id t = track_id track) (playlist (state e));
          e4 = dispatch (SET_CURRENT_INDEX trackIndex) e3;
          h = \<lparr> howl_id = howlsCreated e4, howl_src = [url track], howl_html5 = True,
                howl_format = (case format track of
                                 Some f \<Rightarrow> (if f = [] then None else Some [f])
                               | None \<Rightarrow> None) \<rparr>;
          e5 = e4\<lparr>currentHowl := Some h, howlsCreated := Suc (howlsCreated e4)\<rparr>;
          e6 = howlCall h (Volume (volume (state e))) e5
      in howlCall h Play e6)"

text \<open>
  The events a Howl emits. \<open>Load\<close> carries what \<open>currentHowl?.duration()\<close> returns when
  the callback runs (\<open>None\<close> for \<open>undefined\<close>). Howler reports a source that it cannot
  load or play through \<open>loaderror\<close> and \<open>playerror\<close>; \<open>playTrack\<close> passes no
  \<open>onloaderror\<close> or \<open>onplayerror\<close> option, so these two reach no callback. The \<open>end\<close>
  event, which re-enters \<open>playTrack\<close> for auto-advance, is not part of this model.
\<close>

datatype HowlEvent =
    Load "real option" | Played | Paused | Stopped | LoadError | PlayError

fun howlEvent :: "HowlEvent \<Rightarrow> Engine \<Rightarrow> Engine" where
  "howlEvent (Load d) e =
     dispatch (SET_LOADING False)
       (dispatch (SET_DURATION (case d of Some v \<Rightarrow> v | None \<Rightarrow> 0)) e)"
| "howlEvent Played e = dispatch (SET_PLAYING True) e"
| "howlEvent Paused e = dispatch (SET_PLAYING False) e"
| "howlEvent Stopped e = dispatch (SET_PLAYING False) e"
| "howlEvent LoadError e = e"
| "howlEvent PlayError e = e"

definition setVolume :: "real \<Rightarrow> Engine \<Rightarrow> Engine" where
  "setVolume volume' e =
     (let e1 = dispatch (SET_VOLUME volume') e
      in case currentHowl e1 of Some h \<Rightarrow> howlCall h (Volume volume') e1 | None \<Rightarrow> e1)"

definition seekTo :: "real \<Rightarrow> Engine \<Rightarrow> Engine" where
  "seekTo time e =
     (case currentHowl e of
        Some h \<Rightarrow> dispatch (SET_CURRENT_TIME time) (howlCall h (Seek time) e)
      | None \<Rightarrow> e)"

definition removeFromPlaylist :: "string \<Rightarrow> Engine \<Rightarrow> Engine" where
  "removeFromPlaylist trackId e = dispatch (REMOVE_FROM_PLAYLIST trackId) e"

definition toggleShuffle :: "Engine \<Rightarrow> Engine" where
  "toggleShuffle e = dispatch TOGGLE_SHUFFLE e"

text \<open>
  One tick of the position-polling effect. \<open>position\<close> is what \<open>currentHowl.seek()\<close>
  returns when it is a number and \<open>None\<close> otherwise; \<open>lastUpdateTime\<close> is the effect's
  local variable, returned updated; the flag says whether another frame was requested.
\<close>

definition updateTime :: "real \<Rightarrow> real option \<Rightarrow> real \<Rightarrow> Engine \<Rightarrow> Engine \<times> real \<times> bool" where
  "updateTime timestamp position lastUpdateTime e =
     (if currentHowl e \<noteq> None \<and> isPlaying (state e) then
        (if timestamp - lastUpdateTime \<ge> 250
         then (dispatch (SET_CURRENT_TIME (case position of Some p \<Rightarrow> p | None \<Rightarrow> 0)) e,
               timestamp, True)
         else (e, lastUpdateTime, True))
      else (e, lastUpdateTime, False))"

section \<open>Signal tap (the Waveform component)\<close>

text \<open>
  The component's refs, together with the part of the browser they point into: the audio
  element of each Howl (\<open>howl._sounds[0]._node\<close>, keyed by the Howl's creation number and
  absent when Howler has none), the edges made by \<open>connect\<close>, and counters of the
  contexts, analysers and media-element sources created so far. Nodes are identified by
  their creation number. With \<open>html5: true\<close> the node is an \<open>HTMLAudioElement\<close>, which
  always has \<open>getAttribute\<close>, \<open>setAttribute\<close> and \<open>removeAttribute\<close>;
  \<open>dataConnected\<close> says that its \<open>data-connected\<close> attribute is \<open>'true'\<close>.
\<close>

datatype ContextState = Suspended | Running | Closed

record AudioCtx =
  ctx_id :: nat
  ctx_state :: ContextState

record Analyser =
  analyser_id :: nat
  fftSize :: nat
  smoothingTimeConstant :: real

record AudioElement =
  dataConnected :: bool
  audioSourceNode :: "nat option"
  readyState :: nat

datatype ConnTarget = ToAnalyser nat | ToDestination nat

record Canvas =
  canvas_width :: real
  canvas_height :: real
  has2d :: bool

record Waveform =
  canvasRef :: "Canvas option"
  animationFrameRef :: "nat option"
  audioContextRef :: "AudioCtx option"
  analyserRef :: "Analyser option"
  dataArrayRef :: "nat list option"
  sourceNodeRef :: "nat option"
  connectedHowlRef :: "nat option"
  howlNodes :: "nat \<Rightarrow> AudioElement option"
  connections :: "(nat \<times> ConnTarget) list"
  contextsCreated :: nat
  analysersCreated :: nat
  sourcesCreated :: nat

text \<open>
  What the Web Audio calls of one \<open>setupAudioAnalyser\<close> run do: whether the context
  constructor, \<open>resume\<close>, \<open>createAnalyser\<close>, \<open>disconnect\<close>, \<open>createMediaElementSource\<close>
  and the two \<open>connect\<close> calls throw, and in which state a new context starts.
\<close>

record TapEnv =
  contextFails :: bool
  contextInitial :: ContextState
  resumeFails :: bool
  analyserFails :: bool
  disconnectFails :: bool
  sourceFails :: bool
  connectAnalyserFails :: bool
  connectDestinationFails :: bool

text \<open>Lines 45-51: the context is created once and kept.\<close>

definition ensureContext :: "TapEnv \<Rightarrow> Waveform \<Rightarrow> Waveform" where
  "ensureContext env w =
     (if audioContextRef w = None
      then w\<lparr>audioContextRef := Some \<lparr>ctx_id = contextsCreated w, ctx_state = contextInitial env\<rparr>,
             contextsCreated := Suc (contextsCreated w)\<rparr>
      else w)"

text \<open>Lines 58-65: the previous source node is disconnected, errors ignored, and dropped.\<close>

definition disconnectPrevious :: "TapEnv \<Rightarrow> Waveform \<Rightarrow> Waveform" where
  "disconnectPrevious env w =
     (case sourceNodeRef w of
        Some n \<Rightarrow>
          (if disconnectFails env then w
           else w\<lparr>connections := filter (\<lambda>c. fst c \<noteq> n) (connections w)\<rparr>)
          \<lparr>sourceNodeRef := None\<rparr>
      | None \<Rightarrow> w)"

text \<open>Lines 68-77: the marks on the previous Howl's audio element are cleared.\<close>

definition clearPreviousMarkers :: "nat \<Rightarrow> Waveform \<Rightarrow> Waveform" where
  "clearPreviousMarkers howl w =
     (case connectedHowlRef w of
        Some prev \<Rightarrow>
          (if prev \<noteq> howl then
             (case howlNodes w prev of
                Some prevHowlNode \<Rightarrow>
                  w\<lparr>howlNodes := (howlNodes w)
                       (prev \<mapsto> prevHowlNode\<lparr>dataConnected := False, audioSourceNode := None\<rparr>)\<rparr>
              | None \<Rightarrow> w)
           else w)
      | None \<Rightarrow> w)"

text \<open>
  Lines 79-86: the analyser is created once, with its buffer of \<open>frequencyBinCount\<close>
  (half the transform size) zero bytes.
\<close>

definition ensureAnalyser :: "Waveform \<Rightarrow> Waveform" where
  "ensureAnalyser w =
     (if analyserRef w = None
      then w\<lparr>analyserRef := Some \<lparr>analyser_id = analysersCreated w, fftSize = 512,
                                  smoothingTimeConstant = 8 / 10\<rparr>,
             dataArrayRef := Some (replicate (512 div 2) 0),
             analysersCreated := Suc (analysersCreated w)\<rparr>
      else w)"

text \<open>
  Lines 122-130: the source is connected to the analyser and then to the destination; an
  exception of either call ends the block and is swallowed.
\<close>

definition connectSource :: "TapEnv \<Rightarrow> Waveform \<Rightarrow> Waveform" where
  "connectSource env w =
     (case (sourceNodeRef w, analyserRef w, audioContextRef w) of
        (Some src, Some an, Some ctx) \<Rightarrow>
          (if connectAnalyserFails env then w
           else if connectDestinationFails env
             then w\<lparr>connections := connections w @ [(src, ToAnalyser (analyser_id an))]\<rparr>
             else w\<lparr>connections := connections w @
                        [(src, ToAnalyser (analyser_id an)), (src, ToDestination (ctx_id ctx))]\<rparr>)
      | _ \<Rightarrow> w)"

text \<open>Lines 142-147: the element is marked, the Howl remembered, and the call succeeds.\<close>

definition markConnected :: "nat \<Rightarrow> Waveform \<Rightarrow> bool \<times> Waveform" where
  "markConnected howl w =
     (True,
      w\<lparr>howlNodes := (case howlNodes w howl of
                         Some n \<Rightarrow> (howlNodes w)(howl \<mapsto> n\<lparr>dataConnected := True\<rparr>)
                       | None \<Rightarrow> howlNodes w),
        connectedHowlRef := Some howl\<rparr>)"

text \<open>Lines 89-154: the work on the current Howl's audio element.\<close>

definition connectHowlNode :: "TapEnv \<Rightarrow> nat \<Rightarrow> Waveform \<Rightarrow> bool \<times> Waveform" where
  "connectHowlNode env howl w =
     (case howlNodes w howl of
        None \<Rightarrow> (False, w)
      | Some howlNode \<Rightarrow>
          if connectedHowlRef w = Some howl \<and> dataConnected howlNode \<and> sourceNodeRef w \<noteq> None
          then (True, w)
          else
            (let node1 = (if dataConnected howlNode then howlNode\<lparr>dataConnected := False\<rparr>
                          else howlNode);
                 node2 = (if audioSourceNode node1 \<noteq> None then node1\<lparr>audioSourceNode := None\<rparr>
                          else node1);
                 w1 = w\<lparr>howlNodes := (howlNodes w)(howl \<mapsto> node2)\<rparr>
             in if readyState node2 \<ge> 2 then
                  (case audioSourceNode node2 of
                     Some src \<Rightarrow>
                       markConnected howl (connectSource env (w1\<lparr>sourceNodeRef := Some src\<rparr>))
                   | None \<Rightarrow>
                       if sourceFails env then (False, w1)
                       else
                         (let src = sourcesCreated w1;
                              w2 = w1\<lparr>sourceNodeRef := Some src,
                                     sourcesCreated := Suc src,
                                     howlNodes := (howlNodes w1)
                                       (howl \<mapsto> node2\<lparr>audioSourceNode := Some src\<rparr>)\<rparr>
                          in markConnected howl (connectSource env w2)))
                else (False, w1\<lparr>connectedHowlRef := Some howl\<rparr>)))"

text \<open>
  \<open>setupAudioAnalyser\<close>, run from its call to its return; the second argument is what
  \<open>getCurrentHowl()\<close> returns, as the Howl's creation number.
\<close>

definition setupAudioAnalyser :: "TapEnv \<Rightarrow> nat option \<Rightarrow> Waveform \<Rightarrow> bool \<times> Waveform" where
  "setupAudioAnalyser env getCurrentHowl w =
     (case getCurrentHowl of
        None \<Rightarrow> (False, w)
      | Some howl \<Rightarrow>
          if connectedHowlRef w = Some howl \<and> analyserRef w \<noteq> None \<and> sourceNodeRef w \<noteq> None
          then (True, w)
          else if audioContextRef w = None \<and> contextFails env then (False, w)
          else
            (let w1 = ensureContext env w
             in case audioContextRef w1 of
                  None \<Rightarrow> (False, w1)
                | Some ctx \<Rightarrow>
                    if ctx_state ctx = Suspended \<and> resumeFails env then (False, w1)
                    else
                      (let w2 = (if ctx_state ctx = Suspended
                                 then w1\<lparr>audioContextRef := Some (ctx\<lparr>ctx_state := Running\<rparr>)\<rparr>
                                 else w1);
                           w3 = disconnectPrevious env w2;
                           w4 = clearPreviousMarkers howl w3
                       in if analyserRef w4 = None \<and> analyserFails env then (False, w4)
                          else connectHowlNode env howl (ensureAnalyser w4))))"

text \<open>
  The tap is attached to a Howl when that Howl is the remembered one and both the
  analyser and the source node exist: the test of line 39.
\<close>

definition attached :: "nat \<Rightarrow> Waveform \<Rightarrow> bool" where
  "attached howl w =
     (connectedHowlRef w = Some howl \<and> analyserRef w \<noteq> None \<and> sourceNodeRef w \<noteq> None)"

text \<open>
  The data buffer, when there is one, has the 256 entries it was created with.
\<close>

definition bufferSized :: "Waveform \<Rightarrow> bool" where
  "bufferSized w = (case dataArrayRef w of None \<Rightarrow> True | Some b \<Rightarrow> length b = 256)"

section \<open>Visualization step (the Waveform component)\<close>

text \<open>
  What one step reads from outside: the byte magnitude the analyser reports for each
  bin, \<open>Date.now()\<close>, \<open>isPlayingRef.current\<close>, and the handle that
  \<open>requestAnimationFrame\<close> returns. Arithmetic is over the reals.
\<close>

record DrawEnv =
  spectrum :: "nat \<Rightarrow> nat"
  now :: real
  playing :: bool
  frameId :: nat

text \<open>
  A painted bar: the rectangle given to \<open>roundRect\<close>, the colour stops of its gradient as
  (offset, hue, saturation, lightness, alpha), and whether the glow fill was added.
\<close>

record Bar =
  bar_x :: real
  bar_y :: real
  bar_w :: real
  bar_h :: real
  bar_radius :: real
  bar_stops :: "(real \<times> real \<times> real \<times> real \<times> real) list"
  bar_glow :: bool

datatype RenderPath = RealData | Fallback

text \<open>
  The outcome of a step: it returned before painting, it painted the background and the
  bars of one path, or it threw.
\<close>

datatype Frame = Skipped | Painted RenderPath "Bar list" | Failed

definition barCount :: nat where
  "barCount = 96"

definition barSpacing :: real where
  "barSpacing = 2"

definition barWidth :: "Canvas \<Rightarrow> real" where
  "barWidth canvas = (canvas_width canvas - (real barCount - 1) * barSpacing) / real barCount"

text \<open>\<open>getByteFrequencyData\<close> overwrites the buffer, keeping its length.\<close>

definition getByteFrequencyData :: "DrawEnv \<Rightarrow> nat list \<Rightarrow> nat list" where
  "getByteFrequencyData env buf = map (spectrum env) [0 ..< length buf]"

text \<open>
  One bar of the real-data path. A read outside the buffer gives \<open>undefined\<close>, the bar's
  height is then \<open>NaN\<close>, and \<open>createLinearGradient\<close> throws on it: \<open>None\<close>.
\<close>

definition realBar :: "Canvas \<Rightarrow> nat list \<Rightarrow> nat \<Rightarrow> Bar option" where
  "realBar canvas dataArray i =
     (let dataStep = length dataArray div barCount;
          dataIndex = i * dataStep
      in case js_nth dataArray (int dataIndex) of
           None \<Rightarrow> None
         | Some v \<Rightarrow>
             (let normalizedValue = real v / 255;
                  barHeight = normalizedValue * canvas_height canvas * (85 / 100);
                  x = real i * (barWidth canvas + barSpacing);
                  hue = 280 + (real i / real barCount) * 80;
                  saturation = 70 + normalizedValue * 30;
                  lightness = 45 + normalizedValue * 25
              in Some \<lparr> bar_x = x, bar_y = canvas_height canvas - barHeight,
                         bar_w = barWidth canvas, bar_h = barHeight,
                         bar_radius = barWidth canvas / 2,
                         bar_stops = [(0, hue, saturation, lightness + 20, 9 / 10),
                                      (6 / 10, hue, saturation, lightness, 8 / 10),
                                      (1, hue, saturation, lightness - 10, 6 / 10)],
                         bar_glow = (normalizedValue > 5 / 10) \<rparr>))"

text \<open>The bar of the real-data path when the read is inside the buffer.\<close>

definition realBarOf :: "Canvas \<Rightarrow> nat list \<Rightarrow> nat \<Rightarrow> Bar" where
  "realBarOf canvas dataArray i = the (realBar canvas dataArray i)"

text \<open>One bar of the fallback path, at \<open>time = Date.now() * 0.003\<close>.\<close>

definition fallbackBar :: "Canvas \<Rightarrow> real \<Rightarrow> nat \<Rightarrow> Bar" where
  "fallbackBar canvas time i =
     (let wave = sin (time + real i * (3 / 10)) * (5 / 10) + 5 / 10;
          barHeight = wave * canvas_height canvas * (4 / 10);
          x = real i * (barWidth canvas + barSpacing);
          hue = 280 + (real i / real barCount) * 80
      in \<lparr> bar_x = x, bar_y = canvas_height canvas - barHeight,
            bar_w = barWidth canvas, bar_h = barHeight,
            bar_radius = barWidth canvas / 2,
            bar_stops = [(0, hue, 60, 50, 7 / 10), (1, hue, 60, 30, 5 / 10)],
            bar_glow = False \<rparr>)"

text \<open>Lines 250-255: the next step is requested while playing.\<close>

definition scheduleNext :: "DrawEnv \<Rightarrow> Waveform \<Rightarrow> Waveform" where
  "scheduleNext env w =
     (if playing env then w\<lparr>animationFrameRef := Some (frameId env)\<rparr>
      else w\<lparr>animationFrameRef := None\<rparr>)"

definition drawFrequencyBars :: "DrawEnv \<Rightarrow> Waveform \<Rightarrow> Frame \<times> Waveform" where
  "drawFrequencyBars env w =
     (case canvasRef w of
        None \<Rightarrow> (Skipped, w)
      | Some canvas \<Rightarrow>
          if \<not> has2d canvas then (Skipped, w)
          else
            (case (analyserRef w, dataArrayRef w, sourceNodeRef w) of
               (Some an, Some buf, Some src) \<Rightarrow>
                 (let dataArray = getByteFrequencyData env buf;
                      w1 = w\<lparr>dataArrayRef := Some dataArray\<rparr>
                  in case those (map (realBar canvas dataArray) [0 ..< barCount]) of
                       None \<Rightarrow> (Failed, w1)
                     | Some bars \<Rightarrow> (Painted RealData bars, scheduleNext env w1))
             | _ \<Rightarrow>
                 (Painted Fallback
                    (map (fallbackBar canvas (now env * (3 / 1000))) [0 ..< barCount]),
                  scheduleNext env w)))"

section \<open>Concrete inputs\<close>

text \<open>
  A two-track playlist, an engine with no session, and the engine after \<open>trackA\<close> was
  started, loaded with a duration of ten seconds and began to play.
\<close>

definition trackA :: Track where
  "trackA = \<lparr> track_id = ''a'', title = ''A'', artist = ''x'', track_duration = 10,
              url = ''blob:a'', track_file = None, format = Some ''mp3'', albumArt = None \<rparr>"

definition trackB :: Track where
  "trackB = \<lparr> track_id = ''b'', title = ''B'', artist = ''y'', track_duration = 20,
              url = ''blob:b'', track_file = None, format = None, albumArt = None \<rparr>"

definition idleEngine :: Engine where
  "idleEngine = \<lparr> state = initialState\<lparr>playlist := [trackA, trackB]\<rparr>, currentHowl = None,
                  howlCalls = [], howlsCreated = 0, mathRandom = (\<lambda>k. 0) \<rparr>"

definition liveEngine :: Engine where
  "liveEngine = howlEvent Played (howlEvent (Load (Some 10)) (playTrack trackA idleEngine))"

text \<open>
  The scenario of five tracks with the third one current, and a source of random numbers
  whose \<open>k\<close>-th result is \<open>1 / (k + 2)\<close>.
\<close>

definition demoTrack :: "string \<Rightarrow> Track" where
  "demoTrack name = \<lparr> track_id = name, title = name, artist = ''x'', track_duration = 0,
              url = ''blob:'' @ name, track_file = None, format = None, albumArt = None \<rparr>"

definition fiveEngine :: Engine where
  "fiveEngine =
     \<lparr> state = initialState\<lparr>playlist := map demoTrack [''a'', ''b'', ''c'', ''d'', ''e''],
                                 currentIndex := 2\<rparr>,
       currentHowl = None, howlCalls = [], howlsCreated = 0,
       mathRandom = (\<lambda>k. 1 / (real k + 2)) \<rparr>"

text \<open>
  A mounted component with an 800 by 120 canvas whose current Howl (number 0) has a
  decoded audio element, Web Audio calls that all succeed, and the component after its
  first \<open>setupAudioAnalyser\<close> run.
\<close>

definition okEnv :: TapEnv where
  "okEnv = \<lparr> contextFails = False, contextInitial = Suspended, resumeFails = False,
             analyserFails = False, disconnectFails = False, sourceFails = False,
             connectAnalyserFails = False, connectDestinationFails = False \<rparr>"

definition readyWaveform :: Waveform where
  "readyWaveform =
     \<lparr> canvasRef = Some \<lparr>canvas_width = 800, canvas_height = 120, has2d = True\<rparr>,
       animationFrameRef = None, audioContextRef = None, analyserRef = None,
       dataArrayRef = None, sourceNodeRef = None, connectedHowlRef = None,
       howlNodes = [0 \<mapsto> \<lparr>dataConnected = False, audioSourceNode = None, readyState = 4\<rparr>],
       connections = [], contextsCreated = 0, analysersCreated = 0, sourcesCreated = 0 \<rparr>"

definition attachedWaveform :: Waveform where
  "attachedWaveform = snd (setupAudioAnalyser okEnv (Some 0) readyWaveform)"

text \<open>
  A step's surroundings: every bin at full magnitude, the clock at 0, playing.
\<close>

definition demoDrawEnv :: DrawEnv where
  "demoDrawEnv = \<lparr> spectrum = (\<lambda>k. 255), now = 0, playing = True, frameId = 1 \<rparr>"

section \<open>Facts about the array primitives\<close>

lemma findIndex_from_none:
  "(findIndex_from k P xs = - 1) = (\<forall>x \<in> set xs. \<not> P x)"
  by (induction xs arbitrary: k) auto

lemma findIndex_from_first:
  "p < length xs \<Longrightarrow> P (xs ! p) \<Longrightarrow> (\<forall>q < p. \<not> P (xs ! q))
     \<Longrightarrow> findIndex_from k P xs = int (k + p)"
proof (induction xs arbitrary: k p)
  case Nil
  then show ?case by simp
next
  case (Cons x xs)
  show ?case
  proof (cases p)
    case 0
    with Cons.prems show ?thesis by simp
  next
    case (Suc p')
    from Cons.prems Suc have nx: "\<not> P x" by auto
    from Cons.prems Suc have "p' < length xs" "P (xs ! p')" by auto
    moreover from Cons.prems Suc have "\<forall>q < p'. \<not> P (xs ! q)" by auto
    ultimately have "findIndex_from (Suc k) P xs = int (Suc k + p')"
      by (rule Cons.IH)
    with nx Suc show ?thesis by simp
  qed
qed

lemma findIndex_none: "(findIndex P xs = - 1) = (\<forall>x \<in> set xs. \<not> P x)"
  by (simp add: findIndex_def findIndex_from_none)

lemma findIndex_first:
  "p < length xs \<Longrightarrow> P (xs ! p) \<Longrightarrow> (\<forall>q < p. \<not> P (xs ! q)) \<Longrightarrow> findIndex P xs = int p"
  using findIndex_from_first [of p xs P 0] by (simp add: findIndex_def)

lemma findIndex_from_bounds:
  "findIndex_from k P xs = - 1 \<or> (int k \<le> findIndex_from k P xs \<and> findIndex_from k P xs < int (k + length xs))"
proof (induction xs arbitrary: k)
  case Nil
  then show ?case by simp
next
  case (Cons x xs)
  from Cons.IH [of "Suc k"] show ?case by (cases "P x") auto
qed

lemma findIndex_bounds: "- 1 \<le> findIndex P xs \<and> findIndex P xs < int (length xs)"
  using findIndex_from_bounds [of 0 P xs] by (auto simp: findIndex_def)

section \<open>Facts about the engine\<close>

lemma dispatch_simps:
  "state (dispatch a e) = fst (audioReducer (state e) a (mathRandom e))"
  "mathRandom (dispatch a e) = snd (audioReducer (state e) a (mathRandom e))"
  "currentHowl (dispatch a e) = currentHowl e"
  "howlCalls (dispatch a e) = howlCalls e"
  "howlsCreated (dispatch a e) = howlsCreated e"
  by (simp_all add: dispatch_def split: prod.split)

lemma howlCall_simps:
  "state (howlCall h c e) = state e"
  "mathRandom (howlCall h c e) = mathRandom e"
  "currentHowl (howlCall h c e) = currentHowl e"
  "howlCalls (howlCall h c e) = howlCalls e @ [(howl_id h, c)]"
  "howlsCreated (howlCall h c e) = howlsCreated e"
  by (simp_all add: howlCall_def)

lemma liveEngine_state:
  "state liveEngine = \<lparr> isPlaying = True, currentTrack = Some trackA, currentTime = 0, duration = 10,
       volume = 8 / 10, isLoading = False, playlist = [trackA, trackB], currentIndex = 0,
       isShuffled = False, repeatMode = RepeatNone, shuffledIndices = [] \<rparr>"
  by (simp add: liveEngine_def playTrack_def idleEngine_def initialState_def dispatch_simps
      howlCall_simps findIndex_def Let_def trackA_def trackB_def)

lemma liveEngine_howl:
  "currentHowl liveEngine = Some \<lparr> howl_id = 0, howl_src = [''blob:a''], howl_html5 = True, howl_format = Some [''mp3''] \<rparr>"
  "howlCalls liveEngine = [(0, Volume (8/10)), (0, Play)]"
  by (simp_all add: liveEngine_def playTrack_def idleEngine_def initialState_def dispatch_simps
      howlCall_simps findIndex_def Let_def trackA_def trackB_def)

section \<open>Facts about the shuffle order\<close>

lemma random_index_le:
  assumes "0 \<le> u" "u < 1"
  shows "nat \<lfloor>u * real (Suc i)\<rfloor> \<le> i"
proof -
  have "u * real (Suc i) < real (Suc i)" using assms by simp
  then have "\<lfloor>u * real (Suc i)\<rfloor> < int (Suc i)" by (simp add: floor_less_iff)
  then show ?thesis by simp
qed

lemma shuffle_loop_mset:
  "i < length xs \<Longrightarrow> (\<forall>k. 0 \<le> r k \<and> r k < 1) \<Longrightarrow> mset (fst (shuffle_loop i xs r)) = mset xs"
proof (induction i arbitrary: xs r)
  case 0
  then show ?case by simp
next
  case (Suc i)
  let ?j = "nat \<lfloor>r 0 * real (Suc i + 1)\<rfloor>"
  let ?xs = "xs[Suc i := xs ! ?j, ?j := xs ! Suc i]"
  let ?r = "\<lambda>k. r (Suc k)"
  from Suc.prems have u: "0 \<le> r 0" "r 0 < 1" by auto
  have j: "?j \<le> Suc i" using random_index_le [OF u, of "Suc i"] by simp
  with Suc.prems have jl: "?j < length xs" by simp
  have sw: "mset ?xs = mset xs"
    using mset_swap [of ?j xs "Suc i"] jl Suc.prems(1) by simp
  have "i < length ?xs" using Suc.prems by simp
  moreover have "\<forall>k. 0 \<le> ?r k \<and> ?r k < 1" using Suc.prems by simp
  ultimately have "mset (fst (shuffle_loop i ?xs ?r)) = mset ?xs" by (rule Suc.IH)
  with sw show ?case by (simp add: Math_random_def Let_def)
qed

lemma shuffle_loop_mset':
  "(\<forall>k. 0 \<le> r k \<and> r k < 1) \<Longrightarrow> mset (fst (shuffle_loop (nat (int (length xs) - 1)) xs r)) = mset xs"
proof (cases xs)
  case Nil
  then show ?thesis by simp
next
  case (Cons a list)
  assume "\<forall>k. 0 \<le> r k \<and> r k < 1"
  moreover from Cons have "nat (int (length xs) - 1) < length xs" by simp
  ultimately show ?thesis by (rule shuffle_loop_mset [rotated])
qed

lemma splice1_upto:
  "0 \<le> c \<Longrightarrow> c < int n \<Longrightarrow>
     splice1 (map int [0 ..< n]) c = map int [0 ..< nat c] @ map int [Suc (nat c) ..< n]"
  by (simp add: splice1_def Let_def take_map drop_map min_def)

lemma generateShuffledIndices_mset:
  assumes "0 \<le> c" "c < int n" "\<forall>k. 0 \<le> r k \<and> r k < 1"
  shows "mset (fst (generateShuffledIndices n c r)) =
           mset (map int [0 ..< nat c] @ map int [Suc (nat c) ..< n])"
  using assms shuffle_loop_mset' [of r "splice1 (map int [0 ..< n]) c"]
  by (simp add: generateShuffledIndices_def Let_def splice1_upto)

lemma generateShuffledIndices_perm:
  assumes "0 \<le> c" "c < int n" "\<forall>k. 0 \<le> r k \<and> r k < 1"
  shows "set (fst (generateShuffledIndices n c r)) = int ` {0 ..< n} - {c}"
    and "distinct (fst (generateShuffledIndices n c r))"
    and "length (fst (generateShuffledIndices n c r)) = n - 1"
proof -
  let ?g = "fst (generateShuffledIndices n c r)"
  let ?t = "map int [0 ..< nat c] @ map int [Suc (nat c) ..< n]"
  have m: "mset ?g = mset ?t" using assms by (rule generateShuffledIndices_mset)
  have "set ?g = set ?t" using m by (rule mset_eq_setD)
  also have "\<dots> = int ` {0 ..< n} - {c}" using assms(1,2) by (auto simp: image_iff) 
  finally show "set ?g = int ` {0 ..< n} - {c}" .
  have "distinct ?t" by (auto simp: distinct_map inj_on_def)
  then show "distinct ?g" using m by (metis mset_eq_imp_distinct_iff)
  have "length ?g = length ?t" using m by (rule mset_eq_length)
  also have "\<dots> = n - 1" using assms(1,2) by auto
  finally show "length ?g = n - 1" .
qed


lemma splice1_subset: "set (splice1 xs c) \<subseteq> set xs"
  by (auto simp: splice1_def Let_def dest: in_set_takeD in_set_dropD)

lemma generateShuffledIndices_range:
  assumes "\<forall>k. 0 \<le> r k \<and> r k < 1"
  shows "set (fst (generateShuffledIndices n c r)) \<subseteq> int ` {0 ..< n}"
proof -
  let ?xs = "if c \<ge> 0 then splice1 (map int [0 ..< n]) c else map int [0 ..< n]"
  have "mset (fst (generateShuffledIndices n c r)) = mset ?xs"
    using shuffle_loop_mset' [OF assms, of ?xs] by (simp add: generateShuffledIndices_def Let_def)
  then have "set (fst (generateShuffledIndices n c r)) = set ?xs" by (rule mset_eq_setD)
  also have "\<dots> \<subseteq> set (map int [0 ..< n])"
    using splice1_subset [of "map int [0 ..< n]" c] by (cases "c \<ge> 0") simp_all
  finally show ?thesis by simp
qed

lemma generateShuffledIndices_no_minus_one:
  assumes "\<forall>k. 0 \<le> r k \<and> r k < 1"
  shows "- 1 \<notin> set (fst (generateShuffledIndices n c r))"
  using generateShuffledIndices_range [OF assms, of n c] by auto

lemma toggleShuffle_on:
  assumes "\<not> isShuffled (state e)"
  shows "state (toggleShuffle e) =
           (state e)\<lparr>isShuffled := True,
             shuffledIndices := fst (generateShuffledIndices (length (playlist (state e)))
                                      (currentIndex (state e)) (mathRandom e))\<rparr>"
  using assms by (simp add: toggleShuffle_def dispatch_simps split: prod.split)

lemma toggleShuffle_off:
  assumes "isShuffled (state e)"
  shows "state (toggleShuffle e) = (state e)\<lparr>isShuffled := False, shuffledIndices := []\<rparr>"
  using assms by (simp add: toggleShuffle_def dispatch_simps)

lemma fiveEngine_rng: "\<forall>k. 0 \<le> mathRandom fiveEngine k \<and> mathRandom fiveEngine k < 1"
  by (simp add: fiveEngine_def)

lemma fiveEngine_toggle:
  "shuffledIndices (state (toggleShuffle fiveEngine)) = [4, 0, 1, 3]"
  by (simp add: toggleShuffle_def dispatch_simps fiveEngine_def initialState_def
      generateShuffledIndices_def splice1_def Let_def Math_random_def upt_rec
      numeral_3_eq_3 split: prod.split)

section \<open>Facts about the signal tap\<close>

lemma markConnected_refs:
  "markConnected h w = (b, w') \<Longrightarrow>
     b \<and> connectedHowlRef w' = Some h \<and> sourceNodeRef w' = sourceNodeRef w
       \<and> analyserRef w' = analyserRef w"
  by (auto simp: markConnected_def)

lemma connectSource_refs:
  "sourceNodeRef (connectSource env w) = sourceNodeRef w"
  "analyserRef (connectSource env w) = analyserRef w"
  by (simp_all add: connectSource_def split: option.splits)

lemma connectHowlNode_success:
  assumes "connectHowlNode env h w = (True, w')"
  shows "connectedHowlRef w' = Some h \<and> sourceNodeRef w' \<noteq> None \<and> analyserRef w' = analyserRef w"
proof (cases "howlNodes w h")
  case None
  with assms show ?thesis by (simp add: connectHowlNode_def)
next
  case (Some node)
  show ?thesis
  proof (cases "connectedHowlRef w = Some h \<and> dataConnected node \<and> sourceNodeRef w \<noteq> None")
    case True
    with assms Some show ?thesis by (simp add: connectHowlNode_def)
  next
    case False
    with assms Some show ?thesis
      by (auto simp: connectHowlNode_def Let_def connectSource_refs
          split: if_splits option.splits dest!: markConnected_refs)
  qed
qed

lemma ensureAnalyser_present: "analyserRef (ensureAnalyser w) \<noteq> None"
  by (simp add: ensureAnalyser_def)

lemma setupAudioAnalyser_short_circuit:
  "attached h w \<Longrightarrow> setupAudioAnalyser env (Some h) w = (True, w)"
  by (simp add: setupAudioAnalyser_def attached_def)

lemma setupAudioAnalyser_success:
  assumes "setupAudioAnalyser env (Some h) w = (True, w')"
  shows "attached h w'"
proof (cases "attached h w")
  case True
  with assms show ?thesis by (simp add: setupAudioAnalyser_short_circuit)
next
  case False
  from assms False obtain w0 where c: "connectHowlNode env h (ensureAnalyser w0) = (True, w')"
    by (auto simp: setupAudioAnalyser_def attached_def Let_def split: if_splits option.splits)
  from connectHowlNode_success [OF c] ensureAnalyser_present [of w0]
  show ?thesis by (simp add: attached_def)
qed


lemma repeat_fixed: "f x = x \<Longrightarrow> (f ^^ n) x = x"
  by (induction n) simp_all

lemma first_attach:
  "fst (setupAudioAnalyser okEnv (Some 0) readyWaveform)"
  "contextsCreated attachedWaveform = 1"
  "analysersCreated attachedWaveform = 1"
  "sourcesCreated attachedWaveform = 1"
  "sourceNodeRef attachedWaveform = Some 0"
  "connectedHowlRef attachedWaveform = Some 0"
  "dataArrayRef attachedWaveform = Some (replicate 256 0)"
  "connections attachedWaveform = [(0, ToAnalyser 0), (0, ToDestination 0)]"
  "canvasRef attachedWaveform = Some \<lparr>canvas_width = 800, canvas_height = 120, has2d = True\<rparr>"
  by (simp_all add: attachedWaveform_def setupAudioAnalyser_def okEnv_def readyWaveform_def
      ensureContext_def disconnectPrevious_def clearPreviousMarkers_def ensureAnalyser_def
      connectHowlNode_def connectSource_def markConnected_def Let_def)

lemma attachedWaveform_binding:
  "analyserRef attachedWaveform \<noteq> None"
  "sourceNodeRef attachedWaveform \<noteq> None"
  by (simp_all add: attachedWaveform_def setupAudioAnalyser_def okEnv_def readyWaveform_def
      ensureContext_def disconnectPrevious_def clearPreviousMarkers_def ensureAnalyser_def
      connectHowlNode_def connectSource_def markConnected_def Let_def)

lemma step_buffers:
  "dataArrayRef (ensureContext env w) = dataArrayRef w"
  "dataArrayRef (disconnectPrevious env w) = dataArrayRef w"
  "dataArrayRef (clearPreviousMarkers h w) = dataArrayRef w"
  "dataArrayRef (connectSource env w) = dataArrayRef w"
  "dataArrayRef (snd (markConnected h w)) = dataArrayRef w"
  by (simp_all add: ensureContext_def disconnectPrevious_def clearPreviousMarkers_def
      connectSource_def markConnected_def split: option.splits)

lemma connectHowlNode_buffer:
  "dataArrayRef (snd (connectHowlNode env h w)) = dataArrayRef w"
  by (simp add: connectHowlNode_def Let_def step_buffers split: option.splits)

lemma ensureAnalyser_bufferSized: "bufferSized w \<Longrightarrow> bufferSized (ensureAnalyser w)"
  by (simp add: bufferSized_def ensureAnalyser_def)

lemma setupAudioAnalyser_bufferSized:
  assumes "bufferSized w"
  shows "bufferSized (snd (setupAudioAnalyser env h w))"
proof -
  have pres: "bufferSized v" if "dataArrayRef v = dataArrayRef w" for v
    using assms that by (simp add: bufferSized_def)
  have sized: "bufferSized (snd (connectHowlNode env k (ensureAnalyser v)))"
    if "dataArrayRef v = dataArrayRef w" for v k
    using ensureAnalyser_bufferSized [OF pres [OF that]]
    by (simp add: bufferSized_def connectHowlNode_buffer)
  show ?thesis
    using assms
    by (auto simp: setupAudioAnalyser_def Let_def step_buffers intro!: pres sized
        split: option.splits)
qed

section \<open>Facts about the visualization step\<close>

lemma js_nth_nat: "js_nth xs (int k) = (if k < length xs then Some (xs ! k) else None)"
  by (simp add: js_nth_def)

lemma those_map_Some:
  "(\<And>x. x \<in> set xs \<Longrightarrow> f x = Some (g x)) \<Longrightarrow> those (map f xs) = Some (map g xs)"
  by (induction xs) simp_all

lemma dataIndex_in_range:
  assumes "dataArray \<noteq> []" "i < barCount"
  shows "i * (length dataArray div barCount) < length dataArray"
proof (cases "length dataArray div barCount = 0")
  case True
  with assms(1) show ?thesis by simp
next
  case False
  then have "i * (length dataArray div barCount) < barCount * (length dataArray div barCount)"
    using assms(2) by simp
  also have "\<dots> \<le> length dataArray" by simp
  finally show ?thesis .
qed

lemma realBar_Some:
  assumes "dataArray \<noteq> []" "i < barCount"
  shows "realBar canvas dataArray i = Some (realBarOf canvas dataArray i)"
    and "bar_h (realBarOf canvas dataArray i) =
           real (dataArray ! (i * (length dataArray div barCount))) / 255
             * canvas_height canvas * (85 / 100)"
    and "bar_w (realBarOf canvas dataArray i) = barWidth canvas"
    and "bar_x (realBarOf canvas dataArray i) = real i * (barWidth canvas + barSpacing)"
  using dataIndex_in_range [OF assms]
  by (simp_all add: realBarOf_def realBar_def js_nth_nat Let_def del: of_nat_mult)

lemma fallbackBar_fields:
  "bar_h (fallbackBar canvas t i) =
     (sin (t + real i * (3 / 10)) * (5 / 10) + 5 / 10) * canvas_height canvas * (4 / 10)"
  "bar_w (fallbackBar canvas t i) = barWidth canvas"
  "bar_x (fallbackBar canvas t i) = real i * (barWidth canvas + barSpacing)"
  by (simp_all add: fallbackBar_def Let_def)

lemma getByteFrequencyData_length: "length (getByteFrequencyData env buf) = length buf"
  by (simp add: getByteFrequencyData_def)

lemma draw_real:
  assumes "canvasRef w = Some cv" "has2d cv" "analyserRef w \<noteq> None"
    "dataArrayRef w = Some buf" "buf \<noteq> []" "sourceNodeRef w \<noteq> None"
  shows "fst (drawFrequencyBars env w) =
           Painted RealData (map (realBarOf cv (getByteFrequencyData env buf)) [0 ..< barCount])"
proof -
  have ne: "getByteFrequencyData env buf \<noteq> []"
    using assms(5) getByteFrequencyData_length [of env buf] by (metis length_0_conv)
  have "those (map (realBar cv (getByteFrequencyData env buf)) [0 ..< barCount]) =
          Some (map (realBarOf cv (getByteFrequencyData env buf)) [0 ..< barCount])"
    by (rule those_map_Some) (simp add: realBar_Some(1) [OF ne])
  with assms show ?thesis
    by (auto simp: drawFrequencyBars_def Let_def)
qed

lemma draw_fallback:
  assumes "canvasRef w = Some cv" "has2d cv"
    "analyserRef w = None \<or> dataArrayRef w = None \<or> sourceNodeRef w = None"
  shows "fst (drawFrequencyBars env w) =
           Painted Fallback (map (fallbackBar cv (now env * (3 / 1000))) [0 ..< barCount])"
  using assms by (auto simp: drawFrequencyBars_def split: option.splits)

lemma draw_skipped:
  assumes "canvasRef w = None \<or> (\<exists>cv. canvasRef w = Some cv \<and> \<not> has2d cv)"
  shows "drawFrequencyBars env w = (Skipped, w)"
  using assms by (auto simp: drawFrequencyBars_def)

lemma gap: "real (Suc i) * (bw + barSpacing) - (real i * (bw + barSpacing) + bw) = 2"
  by (simp add: barSpacing_def algebra_simps)

lemma drawFrequencyBars_bufferSized:
  "bufferSized w \<Longrightarrow> bufferSized (snd (drawFrequencyBars env w))"
  by (auto simp: drawFrequencyBars_def bufferSized_def scheduleNext_def Let_def
      getByteFrequencyData_def split: option.splits)

section \<open>Sequencer: next\<close>

text \<open>
  C1. \<open>getNextTrackIndex\<close> returns \<open>-1\<close> for length 0. With shuffle on and a non-empty
  order, where \<open>p\<close> is the position of the current index in the order (its first
  occurrence, and \<open>-1\<close> when it does not occur, as \<open>findIndex\<close> reports it), the result
  is the element at position \<open>p + 1\<close> when that is inside the order, else the first
  element when repeat is \<open>all\<close>, else \<open>-1\<close>. Without shuffle the result is
  \<open>current + 1\<close> when that is below the length, else 0 when repeat is \<open>all\<close>, else \<open>-1\<close>.
  No array read of the function is out of range.
\<close>

theorem next_index_spec:
  "getNextTrackIndex c 0 sh so rep = Some (- 1)
   \<and> (len \<noteq> 0 \<and> sh \<and> so \<noteq> []
        \<and> ((p = - 1 \<and> c \<notin> set so)
            \<or> (0 \<le> p \<and> p < int (length so) \<and> so ! nat p = c \<and> (\<forall>q < nat p. so ! q \<noteq> c)))
      \<longrightarrow> getNextTrackIndex c len sh so rep =
            Some (if p + 1 < int (length so) then so ! nat (p + 1)
                  else if rep = RepeatAll then so ! 0 else - 1))
   \<and> (len \<noteq> 0 \<and> \<not> sh
      \<longrightarrow> getNextTrackIndex c len sh so rep =
            Some (if c + 1 < len then c + 1 else if rep = RepeatAll then 0 else - 1))"
proof (intro conjI impI)
  show "getNextTrackIndex c 0 sh so rep = Some (- 1)"
    by (simp add: getNextTrackIndex_def)
next
  assume a: "len \<noteq> 0 \<and> sh \<and> so \<noteq> []
        \<and> ((p = - 1 \<and> c \<notin> set so)
            \<or> (0 \<le> p \<and> p < int (length so) \<and> so ! nat p = c \<and> (\<forall>q < nat p. so ! q \<noteq> c)))"
  have fi: "findIndex (\<lambda>idx. idx = c) so = p"
  proof -
    from a consider "p = - 1" "c \<notin> set so"
      | "0 \<le> p" "p < int (length so)" "so ! nat p = c" "\<forall>q < nat p. so ! q \<noteq> c"
      by blast
    then show ?thesis
    proof cases
      case 1
      then show ?thesis using findIndex_none [of "\<lambda>idx. idx = c" so] by auto
    next
      case 2
      then have "findIndex (\<lambda>idx. idx = c) so = int (nat p)"
        by (intro findIndex_first) auto
      with 2 show ?thesis by simp
    qed
  qed
  from a have p: "- 1 \<le> p" by auto
  from a have ne: "0 < length so" by simp
  show "getNextTrackIndex c len sh so rep =
            Some (if p + 1 < int (length so) then so ! nat (p + 1)
                  else if rep = RepeatAll then so ! 0 else - 1)"
    using a p ne by (simp add: getNextTrackIndex_def fi js_nth_def Let_def)
next
  assume "len \<noteq> 0 \<and> \<not> sh"
  then show "getNextTrackIndex c len sh so rep =
            Some (if c + 1 < len then c + 1 else if rep = RepeatAll then 0 else - 1)"
    by (simp add: getNextTrackIndex_def Let_def)
qed

theorem next_index_spec_witness:
  "getNextTrackIndex 1 3 True [2, 1, 0] RepeatNone = Some 0
   \<and> getNextTrackIndex 0 3 True [2, 1, 0] RepeatAll = Some 2
   \<and> getNextTrackIndex 0 3 True [2, 1, 0] RepeatNone = Some (- 1)
   \<and> getNextTrackIndex 5 3 True [2, 1, 0] RepeatNone = Some 2
   \<and> getNextTrackIndex 2 3 False [] RepeatAll = Some 0"
  using next_index_spec [where c = 1 and sh = True and so = "[2, 1, 0]" and rep = RepeatNone
        and len = 3 and p = 1]
    next_index_spec [where c = 0 and sh = True and so = "[2, 1, 0]" and rep = RepeatAll
        and len = 3 and p = 2]
    next_index_spec [where c = 0 and sh = True and so = "[2, 1, 0]" and rep = RepeatNone
        and len = 3 and p = 2]
    next_index_spec [where c = 5 and sh = True and so = "[2, 1, 0]" and rep = RepeatNone
        and len = 3 and p = "- 1"]
    next_index_spec [where c = 2 and sh = False and so = "[]" and rep = RepeatAll
        and len = 3 and p = 0]
  by (simp add: nth_Cons')

section \<open>Sequencer: toggling shuffle\<close>

text \<open>
  C2. For a playlist of length \<open>N \<ge> 1\<close> with shuffle off and current index \<open>c\<close>,
  \<open>0 \<le> c < N\<close>, and \<open>Math.random\<close> yielding values in \<open>[0, 1)\<close>: toggling shuffle
  turns it on with an order that is a permutation of the indices \<open>0..N-1\<close> other than \<open>c\<close> (these
  elements, no repetition, length \<open>N - 1\<close>, \<open>c\<close> absent); toggling again, with
  nothing in between, gives shuffle off with an empty order, and the state is the
  original one with an empty order.
\<close>

theorem toggle_shuffle_permutation:
  assumes "\<not> isShuffled (state e)"
    and "0 \<le> currentIndex (state e)"
    and "currentIndex (state e) < int (length (playlist (state e)))"
    and "\<forall>k. 0 \<le> mathRandom e k \<and> mathRandom e k < 1"
  shows "isShuffled (state (toggleShuffle e))
     \<and> set (shuffledIndices (state (toggleShuffle e))) =
         int ` {0 ..< length (playlist (state e))} - {currentIndex (state e)}
     \<and> distinct (shuffledIndices (state (toggleShuffle e)))
     \<and> length (shuffledIndices (state (toggleShuffle e))) = length (playlist (state e)) - 1
     \<and> currentIndex (state e) \<notin> set (shuffledIndices (state (toggleShuffle e)))
     \<and> \<not> isShuffled (state (toggleShuffle (toggleShuffle e)))
     \<and> shuffledIndices (state (toggleShuffle (toggleShuffle e))) = []
     \<and> state (toggleShuffle (toggleShuffle e)) = (state e)\<lparr>shuffledIndices := []\<rparr>"
proof -
  let ?g = "fst (generateShuffledIndices (length (playlist (state e)))
                   (currentIndex (state e)) (mathRandom e))"
  have on: "state (toggleShuffle e) = (state e)\<lparr>isShuffled := True, shuffledIndices := ?g\<rparr>"
    using assms(1) by (rule toggleShuffle_on)
  then have "isShuffled (state (toggleShuffle e))" by simp
  then have off: "state (toggleShuffle (toggleShuffle e)) =
      (state (toggleShuffle e))\<lparr>isShuffled := False, shuffledIndices := []\<rparr>"
    by (rule toggleShuffle_off)
  have s: "set ?g = int ` {0 ..< length (playlist (state e))} - {currentIndex (state e)}"
    using assms(2-4) by (rule generateShuffledIndices_perm)
  have d: "distinct ?g" using assms(2-4) by (rule generateShuffledIndices_perm)
  have l: "length ?g = length (playlist (state e)) - 1"
    using assms(2-4) by (rule generateShuffledIndices_perm)
  have twice: "state (toggleShuffle (toggleShuffle e)) = (state e)\<lparr>shuffledIndices := []\<rparr>"
    using assms(1) by (simp add: off on)
  show ?thesis
    using s d l assms(1) by (simp add: on twice)
qed

theorem toggle_shuffle_permutation_witness:
  "shuffledIndices (state (toggleShuffle fiveEngine)) = [4, 0, 1, 3]
   \<and> length (shuffledIndices (state (toggleShuffle fiveEngine))) = 4
   \<and> 2 \<notin> set (shuffledIndices (state (toggleShuffle fiveEngine)))
   \<and> \<not> isShuffled (state (toggleShuffle (toggleShuffle fiveEngine)))
   \<and> shuffledIndices (state (toggleShuffle (toggleShuffle fiveEngine))) = []"
proof -
  have h1: "\<not> isShuffled (state fiveEngine)" by (simp add: fiveEngine_def initialState_def)
  have h2: "0 \<le> currentIndex (state fiveEngine)" by (simp add: fiveEngine_def)
  have h3: "currentIndex (state fiveEngine) < int (length (playlist (state fiveEngine)))"
    by (simp add: fiveEngine_def)
  have c: "currentIndex (state fiveEngine) = 2" by (simp add: fiveEngine_def)
  have n: "length (playlist (state fiveEngine)) = 5" by (simp add: fiveEngine_def)
  note t = toggle_shuffle_permutation [OF h1 h2 h3 fiveEngine_rng]
  from t have "length (shuffledIndices (state (toggleShuffle fiveEngine))) =
      length (playlist (state fiveEngine)) - 1" by blast
  moreover from t have "currentIndex (state fiveEngine) \<notin>
      set (shuffledIndices (state (toggleShuffle fiveEngine)))" by blast
  moreover from t have "\<not> isShuffled (state (toggleShuffle (toggleShuffle fiveEngine)))"
    by blast
  moreover from t have "shuffledIndices (state (toggleShuffle (toggleShuffle fiveEngine))) = []"
    by blast
  ultimately show ?thesis
    unfolding c n using fiveEngine_toggle by simp
qed

section \<open>Sequencer: previous\<close>

text \<open>
  C3. For a playlist of length \<open>N \<ge> 1\<close>: without an effective shuffle order,
  \<open>getPreviousTrackIndex\<close> at current index 0 returns \<open>N - 1\<close>; with shuffle on and a
  non-empty order whose position before the current one falls before the start (the
  current index is first in the order, or does not occur in it), it returns the last
  element of the order. The result is never \<open>-1\<close>: for every order that holds indices
  (no \<open>-1\<close>), and so for every order that \<open>generateShuffledIndices\<close> produces. The
  function has no repeat-mode parameter, and what \<open>previousTrack\<close> computes does not
  change with the state's repeat mode.
\<close>

theorem previous_index_wraps:
  "1 \<le> N \<longrightarrow>
     (\<not> (sh \<and> so \<noteq> []) \<longrightarrow> getPreviousTrackIndex 0 N sh so = Some (N - 1))
   \<and> (sh \<and> so \<noteq> [] \<and> (so ! 0 = c \<or> c \<notin> set so)
        \<longrightarrow> getPreviousTrackIndex c N sh so = Some (last so))
   \<and> (- 1 \<notin> set so \<longrightarrow> (\<exists>i. getPreviousTrackIndex c N sh so = Some i \<and> i \<noteq> - 1))
   \<and> ((\<forall>k. 0 \<le> r k \<and> r k < 1)
        \<longrightarrow> (\<exists>i. getPreviousTrackIndex c N sh (fst (generateShuffledIndices n c' r)) = Some i
                 \<and> i \<noteq> - 1))
   \<and> previousTrack_index (s\<lparr>repeatMode := m\<rparr>) = previousTrack_index s"
proof (intro impI conjI)
  assume N: "1 \<le> N"
  show "\<not> (sh \<and> so \<noteq> []) \<Longrightarrow> getPreviousTrackIndex 0 N sh so = Some (N - 1)"
    using N by (auto simp: getPreviousTrackIndex_def)
  show "getPreviousTrackIndex c N sh so = Some (last so)"
    if a: "sh \<and> so \<noteq> [] \<and> (so ! 0 = c \<or> c \<notin> set so)"
  proof -
    from a have ne: "so \<noteq> []" by simp
    have "findIndex (\<lambda>idx. idx = c) so - 1 < 0"
    proof (cases "c \<in> set so")
      case True
      with a have "so ! 0 = c" by simp
      with ne have "findIndex (\<lambda>idx. idx = c) so = int 0"
        by (intro findIndex_first) auto
      then show ?thesis by simp
    next
      case False
      then have "findIndex (\<lambda>idx. idx = c) so = - 1"
        by (auto simp: findIndex_none)
      then show ?thesis by simp
    qed
    moreover from ne have "js_nth so (int (length so) - 1) = Some (last so)"
      by (cases so rule: rev_cases) (simp_all add: js_nth_def)
    ultimately show ?thesis using a N
      by (simp add: getPreviousTrackIndex_def Let_def)
  qed
  have never: "\<exists>i. getPreviousTrackIndex c N sh xs = Some i \<and> i \<noteq> - 1"
    if m: "- 1 \<notin> set xs" for xs
  proof (cases "sh \<and> xs \<noteq> []")
    case False
    then show ?thesis using N by (auto simp: getPreviousTrackIndex_def Let_def)
  next
    case True
    let ?p = "findIndex (\<lambda>idx. idx = c) xs"
    have b: "- 1 \<le> ?p \<and> ?p < int (length xs)" by (rule findIndex_bounds)
    show ?thesis
    proof (cases "?p - 1 \<ge> 0")
      case True
      with b have "nat (?p - 1) < length xs" by simp
      then have "xs ! nat (?p - 1) \<in> set xs" by simp
      with m have "xs ! nat (?p - 1) \<noteq> - 1" by metis
      with True b \<open>sh \<and> xs \<noteq> []\<close> N show ?thesis
        by (simp add: getPreviousTrackIndex_def Let_def js_nth_def)
    next
      case False
      from True have "last xs \<in> set xs" by simp
      with m have "last xs \<noteq> - 1" by metis
      moreover from True have "js_nth xs (int (length xs) - 1) = Some (last xs)"
        by (cases xs rule: rev_cases) (simp_all add: js_nth_def)
      ultimately show ?thesis using False True N
        by (simp add: getPreviousTrackIndex_def Let_def)
    qed
  qed
  show "\<exists>i. getPreviousTrackIndex c N sh so = Some i \<and> i \<noteq> - 1" if "- 1 \<notin> set so"
    using that by (rule never)
  show "\<exists>i. getPreviousTrackIndex c N sh (fst (generateShuffledIndices n c' r)) = Some i
            \<and> i \<noteq> - 1"
    if "\<forall>k. 0 \<le> r k \<and> r k < 1"
    using generateShuffledIndices_no_minus_one [OF that] by (rule never)
  show "previousTrack_index (s\<lparr>repeatMode := m\<rparr>) = previousTrack_index s"
    by (simp add: previousTrack_index_def)
qed

theorem previous_index_wraps_witness:
  "getPreviousTrackIndex 0 3 False [] = Some 2
   \<and> getPreviousTrackIndex 2 3 True [2, 0, 1] = Some 1
   \<and> (\<exists>i. getPreviousTrackIndex 1 3 True [2, 0, 1] = Some i \<and> i \<noteq> - 1)
   \<and> (\<exists>i. getPreviousTrackIndex 2 5 True
              (fst (generateShuffledIndices 5 2 (\<lambda>k. 1 / (real k + 2)))) = Some i
            \<and> i \<noteq> - 1)"
proof -
  have u: "\<forall>k. (0::real) \<le> 1 / (real k + 2) \<and> 1 / (real k + 2) < 1" by simp
  show ?thesis
    using previous_index_wraps [where N = 3 and sh = False and so = "[]" and c = 2]
      previous_index_wraps [where N = 3 and sh = True and so = "[2, 0, 1]" and c = 2]
      previous_index_wraps [where N = 3 and sh = True and so = "[2, 0, 1]" and c = 1]
      previous_index_wraps [where N = 5 and sh = True and c = 2 and n = 5 and c' = 2
        and r = "\<lambda>k. 1 / (real k + 2)"] u
    by simp
qed

section \<open>Engine: volume\<close>

text \<open>
  The engine does not clamp: with a live session, \<open>setVolume 1.5\<close> stores 1.5 as the
  engine volume and calls \<open>volume(1.5)\<close> on the resource, not \<open>volume(1)\<close>.
\<close>

theorem setVolume_unclamped_counterexample:
  "volume (state (setVolume (3 / 2) liveEngine)) = 3 / 2
   \<and> \<not> volume (state (setVolume (3 / 2) liveEngine)) \<le> 1
   \<and> last (howlCalls (setVolume (3 / 2) liveEngine)) = (0, Volume (3 / 2))
   \<and> last (howlCalls (setVolume (3 / 2) liveEngine)) \<noteq> (0, Volume 1)"
  by (simp add: setVolume_def dispatch_simps howlCall_simps liveEngine_howl Let_def)

text \<open>
  C4, as the code has it. \<open>setVolume v\<close> stores \<open>v\<close> itself as the engine volume and
  changes no other field of the state; with a live session it calls \<open>volume(v)\<close> on the
  resource with the same \<open>v\<close>, and with none it calls nothing. The stored and applied
  value lies in \<open>[0, 1]\<close> when \<open>v\<close> does.
\<close>

theorem setVolume_stores_and_applies:
  "volume (state (setVolume v e)) = v
   \<and> state (setVolume v e) = (state e)\<lparr>volume := v\<rparr>
   \<and> (currentHowl e = Some h
        \<longrightarrow> howlCalls (setVolume v e) = howlCalls e @ [(howl_id h, Volume v)])
   \<and> (currentHowl e = None \<longrightarrow> howlCalls (setVolume v e) = howlCalls e)
   \<and> currentHowl (setVolume v e) = currentHowl e
   \<and> (0 \<le> v \<and> v \<le> 1
        \<longrightarrow> 0 \<le> volume (state (setVolume v e)) \<and> volume (state (setVolume v e)) \<le> 1)"
  by (auto simp: setVolume_def dispatch_simps howlCall_simps Let_def split: option.splits)

theorem setVolume_stores_and_applies_witness:
  "volume (state (setVolume (1 / 2) liveEngine)) = 1 / 2
   \<and> howlCalls (setVolume (1 / 2) liveEngine) =
       [(0, Volume (8 / 10)), (0, Play), (0, Volume (1 / 2))]
   \<and> howlCalls (setVolume (1 / 2) idleEngine) = []"
  using setVolume_stores_and_applies [where v = "1 / 2" and e = liveEngine
        and h = "\<lparr> howl_id = 0, howl_src = [''blob:a''], howl_html5 = True,
                   howl_format = Some [''mp3''] \<rparr>"]
    setVolume_stores_and_applies [where v = "1 / 2" and e = idleEngine]
  by (simp add: liveEngine_howl idleEngine_def)

section \<open>Engine: a source that cannot be loaded\<close>

text \<open>
  Starting \<open>trackB\<close> while \<open>trackA\<close> (duration 10) is live, and the new resource
  failing to load: the loading flag stays set and the duration is still 10.
\<close>

theorem load_failure_counterexample:
  "isLoading (state (howlEvent LoadError (playTrack trackB liveEngine)))
   \<and> duration (state (howlEvent LoadError (playTrack trackB liveEngine))) = 10
   \<and> \<not> (duration (state (howlEvent LoadError (playTrack trackB liveEngine))) = 0
        \<and> \<not> isLoading (state (howlEvent LoadError (playTrack trackB liveEngine))))"
  by (simp add: playTrack_def dispatch_simps howlCall_simps liveEngine_state Let_def
      split: option.splits)

text \<open>
  C5, as the code has it. \<open>playTrack\<close> sets the loading flag and leaves the duration as
  it was. The loaded event stores the duration the resource reports, 0 when it reports
  none, clears the loading flag, and changes nothing else. A load error reaches no
  callback: it leaves the engine as it is, so after \<open>playTrack\<close> the loading flag is
  still set.
\<close>

theorem load_event_and_failure:
  "isLoading (state (playTrack t e))
   \<and> duration (state (playTrack t e)) = duration (state e)
   \<and> state (howlEvent (Load d) e) =
       (state e)\<lparr>duration := (case d of Some v \<Rightarrow> v | None \<Rightarrow> 0), isLoading := False\<rparr>
   \<and> state (howlEvent (Load None) e) = (state e)\<lparr>duration := 0, isLoading := False\<rparr>
   \<and> currentHowl (howlEvent (Load d) e) = currentHowl e
   \<and> howlCalls (howlEvent (Load d) e) = howlCalls e
   \<and> howlEvent LoadError e = e
   \<and> isLoading (state (howlEvent LoadError (playTrack t e)))"
  by (simp add: playTrack_def dispatch_simps howlCall_simps Let_def split: option.splits)

theorem load_event_and_failure_witness:
  "isLoading (state (playTrack trackB liveEngine))
   \<and> duration (state (howlEvent (Load None) (playTrack trackB liveEngine))) = 0
   \<and> \<not> isLoading (state (howlEvent (Load None) (playTrack trackB liveEngine)))
   \<and> currentTrack (state (howlEvent (Load None) (playTrack trackB liveEngine))) = Some trackB"
  using load_event_and_failure [where t = trackB and e = liveEngine]
    load_event_and_failure [where d = None and e = "playTrack trackB liveEngine"]
  by (simp add: playTrack_def dispatch_simps howlCall_simps Let_def split: option.splits)

section \<open>Signal tap: attaching twice\<close>

text \<open>
  C6. When the component is already attached to the current Howl with an analyser and
  a source node present, \<open>setupAudioAnalyser\<close> returns success and leaves every ref,
  node and counter as it is. Whenever an attach to a Howl succeeds, the next attach to
  the same Howl, whatever the Web Audio calls would do, succeeds without any change:
  the numbers of contexts, analysers and media-element sources created stay the same,
  also over any number of repeated attaches.
\<close>

theorem attach_idempotent:
  "(connectedHowlRef w = Some h \<and> analyserRef w \<noteq> None \<and> sourceNodeRef w \<noteq> None
      \<longrightarrow> setupAudioAnalyser env (Some h) w = (True, w))
   \<and> (setupAudioAnalyser env (Some h) w = (True, w')
      \<longrightarrow> setupAudioAnalyser env' (Some h) w' = (True, w')
        \<and> contextsCreated (snd (setupAudioAnalyser env' (Some h) w')) = contextsCreated w'
        \<and> analysersCreated (snd (setupAudioAnalyser env' (Some h) w')) = analysersCreated w'
        \<and> sourcesCreated (snd (setupAudioAnalyser env' (Some h) w')) = sourcesCreated w'
        \<and> ((\<lambda>v. snd (setupAudioAnalyser env' (Some h) v)) ^^ n) w' = w')"
proof (intro conjI impI)
  assume "connectedHowlRef w = Some h \<and> analyserRef w \<noteq> None \<and> sourceNodeRef w \<noteq> None"
  then have "attached h w" by (simp add: attached_def)
  then show "setupAudioAnalyser env (Some h) w = (True, w)"
    by (rule setupAudioAnalyser_short_circuit)
next
  assume "setupAudioAnalyser env (Some h) w = (True, w')"
  then have "attached h w'" by (rule setupAudioAnalyser_success)
  then have again: "setupAudioAnalyser env' (Some h) w' = (True, w')"
    by (rule setupAudioAnalyser_short_circuit)
  then show "setupAudioAnalyser env' (Some h) w' = (True, w')" .
  from again show "contextsCreated (snd (setupAudioAnalyser env' (Some h) w')) = contextsCreated w'"
    by simp
  from again show "analysersCreated (snd (setupAudioAnalyser env' (Some h) w')) = analysersCreated w'"
    by simp
  from again show "sourcesCreated (snd (setupAudioAnalyser env' (Some h) w')) = sourcesCreated w'"
    by simp
  from again have "(\<lambda>v. snd (setupAudioAnalyser env' (Some h) v)) w' = w'" by simp
  then show "((\<lambda>v. snd (setupAudioAnalyser env' (Some h) v)) ^^ n) w' = w'"
    by (rule repeat_fixed)
qed

theorem attach_idempotent_witness:
  "setupAudioAnalyser okEnv (Some 0) attachedWaveform = (True, attachedWaveform)
   \<and> contextsCreated (snd (setupAudioAnalyser okEnv (Some 0) attachedWaveform)) = 1
   \<and> analysersCreated (snd (setupAudioAnalyser okEnv (Some 0) attachedWaveform)) = 1
   \<and> sourcesCreated (snd (setupAudioAnalyser okEnv (Some 0) attachedWaveform)) = 1"
proof -
  have "setupAudioAnalyser okEnv (Some 0) readyWaveform = (True, attachedWaveform)"
    using first_attach(1) by (simp add: attachedWaveform_def prod_eq_iff)
  with attach_idempotent [where env = okEnv and h = 0 and w = readyWaveform
      and w' = attachedWaveform and env' = okEnv]
  show ?thesis by (simp add: first_attach)
qed

section \<open>Visualization: the two paths\<close>

text \<open>
  A step without a canvas returns before painting anything, also while playing and
  with an analysis binding present.
\<close>

theorem draw_step_skipped_counterexample:
  "playing demoDrawEnv
   \<and> drawFrequencyBars demoDrawEnv (attachedWaveform\<lparr>canvasRef := None\<rparr>) =
       (Skipped, attachedWaveform\<lparr>canvasRef := None\<rparr>)"
  by (simp add: drawFrequencyBars_def demoDrawEnv_def)

text \<open>
  C7, as the code has it. A step that has a canvas with a 2D context paints exactly 96
  bars, 2 units apart. It takes the real-data path exactly when the analyser, the data
  buffer and the source node are all present: bar \<open>i\<close> then has height (byte read
  from the buffer / 255) times the canvas height times 0.85, for a non-empty buffer (the
  component only ever creates one of 256 bytes). Otherwise it takes the fallback path:
  bar \<open>i\<close> has height \<open>(sin(time + 0.3 i) * 0.5 + 0.5)\<close> times the canvas height times
  0.4, with \<open>time\<close> the clock times 0.003. A step without a canvas or without a 2D
  context paints nothing and changes nothing.
\<close>

theorem draw_step_paths:
  "(canvasRef w = Some cv \<and> has2d cv \<longrightarrow>
      (analyserRef w \<noteq> None \<and> dataArrayRef w = Some buf \<and> buf \<noteq> [] \<and> sourceNodeRef w \<noteq> None
         \<longrightarrow> (\<exists>bars. fst (drawFrequencyBars env w) = Painted RealData bars
               \<and> length bars = 96
               \<and> (\<forall>i < 96.
                     bar_h (bars ! i) =
                       real (getByteFrequencyData env buf ! (i * (length buf div 96))) / 255
                         * canvas_height cv * (85 / 100)
                   \<and> bar_w (bars ! i) = (canvas_width cv - 95 * 2) / 96
                   \<and> bar_x (bars ! i) = real i * (bar_w (bars ! i) + 2))
               \<and> (\<forall>i < 95. bar_x (bars ! Suc i) - (bar_x (bars ! i) + bar_w (bars ! i)) = 2)))
    \<and> (analyserRef w = None \<or> dataArrayRef w = None \<or> sourceNodeRef w = None
         \<longrightarrow> (\<exists>bars. fst (drawFrequencyBars env w) = Painted Fallback bars
               \<and> length bars = 96
               \<and> (\<forall>i < 96.
                     bar_h (bars ! i) =
                       (sin (now env * (3 / 1000) + real i * (3 / 10)) * (5 / 10) + 5 / 10)
                         * canvas_height cv * (4 / 10)
                   \<and> bar_w (bars ! i) = (canvas_width cv - 95 * 2) / 96
                   \<and> bar_x (bars ! i) = real i * (bar_w (bars ! i) + 2))
               \<and> (\<forall>i < 95. bar_x (bars ! Suc i) - (bar_x (bars ! i) + bar_w (bars ! i)) = 2))))
   \<and> (canvasRef w = None \<or> (\<exists>c. canvasRef w = Some c \<and> \<not> has2d c)
        \<longrightarrow> drawFrequencyBars env w = (Skipped, w))"
proof (intro conjI impI)
  assume c: "canvasRef w = Some cv \<and> has2d cv"
    and r: "analyserRef w \<noteq> None \<and> dataArrayRef w = Some buf \<and> buf \<noteq> [] \<and> sourceNodeRef w \<noteq> None"
  let ?d = "getByteFrequencyData env buf"
  let ?bars = "map (realBarOf cv ?d) [0 ..< barCount]"
  have ne: "?d \<noteq> []"
    using r getByteFrequencyData_length [of env buf] by (metis length_0_conv)
  have p: "fst (drawFrequencyBars env w) = Painted RealData ?bars"
    using c r by (intro draw_real) simp_all
  have l: "length ?bars = 96" by (simp add: barCount_def)
  have f: "bar_h (?bars ! i) = real (?d ! (i * (length buf div 96))) / 255
                         * canvas_height cv * (85 / 100)
      \<and> bar_w (?bars ! i) = (canvas_width cv - 95 * 2) / 96
      \<and> bar_x (?bars ! i) = real i * (bar_w (?bars ! i) + 2)" if "i < 96" for i
  proof -
    from that have i: "i < barCount" by (simp add: barCount_def)
    then have "?bars ! i = realBarOf cv ?d i" by simp
    then show ?thesis
      using realBar_Some(2-4) [OF ne i, of cv]
      by (simp add: getByteFrequencyData_length barWidth_def barSpacing_def barCount_def)
  qed
  have g: "bar_x (?bars ! Suc i) - (bar_x (?bars ! i) + bar_w (?bars ! i)) = 2" if "i < 95" for i
  proof -
    let ?W = "(canvas_width cv - 95 * 2) / 96"
    from that have "i < 96" "Suc i < 96" by simp_all
    from f [OF this(1)] f [OF this(2)]
    have "bar_w (?bars ! i) = ?W" "bar_x (?bars ! i) = real i * (?W + 2)"
      "bar_x (?bars ! Suc i) = real (Suc i) * (?W + 2)" by simp_all
    then show ?thesis by (simp only: gap [unfolded barSpacing_def])
  qed
  from p l f g
  show "\<exists>bars. fst (drawFrequencyBars env w) = Painted RealData bars
               \<and> length bars = 96
               \<and> (\<forall>i < 96.
                     bar_h (bars ! i) =
                       real (getByteFrequencyData env buf ! (i * (length buf div 96))) / 255
                         * canvas_height cv * (85 / 100)
                   \<and> bar_w (bars ! i) = (canvas_width cv - 95 * 2) / 96
                   \<and> bar_x (bars ! i) = real i * (bar_w (bars ! i) + 2))
               \<and> (\<forall>i < 95. bar_x (bars ! Suc i) - (bar_x (bars ! i) + bar_w (bars ! i)) = 2)"
    by blast
next
  assume c: "canvasRef w = Some cv \<and> has2d cv"
    and r: "analyserRef w = None \<or> dataArrayRef w = None \<or> sourceNodeRef w = None"
  let ?bars = "map (fallbackBar cv (now env * (3 / 1000))) [0 ..< barCount]"
  have p: "fst (drawFrequencyBars env w) = Painted Fallback ?bars"
    using c r by (intro draw_fallback) simp_all
  have l: "length ?bars = 96" by (simp add: barCount_def)
  have f: "bar_h (?bars ! i) =
                       (sin (now env * (3 / 1000) + real i * (3 / 10)) * (5 / 10) + 5 / 10)
                         * canvas_height cv * (4 / 10)
      \<and> bar_w (?bars ! i) = (canvas_width cv - 95 * 2) / 96
      \<and> bar_x (?bars ! i) = real i * (bar_w (?bars ! i) + 2)" if "i < 96" for i
  proof -
    from that have i: "i < barCount" by (simp add: barCount_def)
    then have "?bars ! i = fallbackBar cv (now env * (3 / 1000)) i" by simp
    then show ?thesis
      by (simp add: fallbackBar_fields barWidth_def barSpacing_def barCount_def)
  qed
  have g: "bar_x (?bars ! Suc i) - (bar_x (?bars ! i) + bar_w (?bars ! i)) = 2" if "i < 95" for i
  proof -
    let ?W = "(canvas_width cv - 95 * 2) / 96"
    from that have "i < 96" "Suc i < 96" by simp_all
    from f [OF this(1)] f [OF this(2)]
    have "bar_w (?bars ! i) = ?W" "bar_x (?bars ! i) = real i * (?W + 2)"
      "bar_x (?bars ! Suc i) = real (Suc i) * (?W + 2)" by simp_all
    then show ?thesis by (simp only: gap [unfolded barSpacing_def])
  qed
  from p l f g
  show "\<exists>bars. fst (drawFrequencyBars env w) = Painted Fallback bars
               \<and> length bars = 96
               \<and> (\<forall>i < 96.
                     bar_h (bars ! i) =
                       (sin (now env * (3 / 1000) + real i * (3 / 10)) * (5 / 10) + 5 / 10)
                         * canvas_height cv * (4 / 10)
                   \<and> bar_w (bars ! i) = (canvas_width cv - 95 * 2) / 96
                   \<and> bar_x (bars ! i) = real i * (bar_w (bars ! i) + 2))
               \<and> (\<forall>i < 95. bar_x (bars ! Suc i) - (bar_x (bars ! i) + bar_w (bars ! i)) = 2)"
    by blast
next
  assume "canvasRef w = None \<or> (\<exists>c. canvasRef w = Some c \<and> \<not> has2d c)"
  then show "drawFrequencyBars env w = (Skipped, w)" by (rule draw_skipped)
qed

theorem draw_step_paths_witness:
  "(\<exists>bars. fst (drawFrequencyBars demoDrawEnv attachedWaveform) = Painted RealData bars
        \<and> length bars = 96 \<and> bar_h (bars ! 3) = 102
        \<and> bar_x (bars ! Suc 0) - (bar_x (bars ! 0) + bar_w (bars ! 0)) = 2)
   \<and> (\<exists>bars. fst (drawFrequencyBars demoDrawEnv readyWaveform) = Painted Fallback bars
        \<and> length bars = 96 \<and> bar_h (bars ! 0) = 24)
   \<and> drawFrequencyBars demoDrawEnv (readyWaveform\<lparr>canvasRef := None\<rparr>) =
       (Skipped, readyWaveform\<lparr>canvasRef := None\<rparr>)"
proof (intro conjI)
  let ?cv = "\<lparr>canvas_width = 800, canvas_height = 120, has2d = True\<rparr>"
  have pre: "canvasRef attachedWaveform = Some ?cv \<and> has2d ?cv"
    "analyserRef attachedWaveform \<noteq> None \<and> dataArrayRef attachedWaveform = Some (replicate 256 0)
       \<and> replicate 256 (0::nat) \<noteq> [] \<and> sourceNodeRef attachedWaveform \<noteq> None"
    by (simp_all add: first_attach attachedWaveform_binding)
  from draw_step_paths [where w = attachedWaveform and cv = ?cv and buf = "replicate 256 0"
      and env = demoDrawEnv] pre
  obtain bars where p: "fst (drawFrequencyBars demoDrawEnv attachedWaveform) = Painted RealData bars"
    and l: "length bars = 96"
    and h: "\<forall>i < 96. bar_h (bars ! i) =
              real (getByteFrequencyData demoDrawEnv (replicate 256 0)
                      ! (i * (length (replicate 256 (0::nat)) div 96))) / 255
                * canvas_height ?cv * (85 / 100)
            \<and> bar_w (bars ! i) = (canvas_width ?cv - 95 * 2) / 96
            \<and> bar_x (bars ! i) = real i * (bar_w (bars ! i) + 2)"
    and g: "\<forall>i < 95. bar_x (bars ! Suc i) - (bar_x (bars ! i) + bar_w (bars ! i)) = 2"
    by blast
  from h have "bar_h (bars ! 3) =
      real (getByteFrequencyData demoDrawEnv (replicate 256 0)
              ! (3 * (length (replicate 256 (0::nat)) div 96))) / 255
        * canvas_height ?cv * (85 / 100)"
    by simp
  then have "bar_h (bars ! 3) = 102"
    by (simp add: getByteFrequencyData_def demoDrawEnv_def)
  moreover from g have "bar_x (bars ! Suc 0) - (bar_x (bars ! 0) + bar_w (bars ! 0)) = 2"
    by simp
  ultimately show "\<exists>bars. fst (drawFrequencyBars demoDrawEnv attachedWaveform) = Painted RealData bars
        \<and> length bars = 96 \<and> bar_h (bars ! 3) = 102
        \<and> bar_x (bars ! Suc 0) - (bar_x (bars ! 0) + bar_w (bars ! 0)) = 2"
    using p l by blast
next
  let ?cv = "\<lparr>canvas_width = 800, canvas_height = 120, has2d = True\<rparr>"
  have pre: "canvasRef readyWaveform = Some ?cv \<and> has2d ?cv"
    "analyserRef readyWaveform = None \<or> dataArrayRef readyWaveform = None
       \<or> sourceNodeRef readyWaveform = None"
    by (simp_all add: readyWaveform_def)
  from draw_step_paths [where w = readyWaveform and cv = ?cv and env = demoDrawEnv] pre
  obtain bars where p: "fst (drawFrequencyBars demoDrawEnv readyWaveform) = Painted Fallback bars"
    and l: "length bars = 96"
    and h: "\<forall>i < 96. bar_h (bars ! i) =
              (sin (now demoDrawEnv * (3 / 1000) + real i * (3 / 10)) * (5 / 10) + 5 / 10)
                * canvas_height ?cv * (4 / 10)
            \<and> bar_w (bars ! i) = (canvas_width ?cv - 95 * 2) / 96
            \<and> bar_x (bars ! i) = real i * (bar_w (bars ! i) + 2)"
    by blast
  from h have "bar_h (bars ! 0) =
      (sin (now demoDrawEnv * (3 / 1000) + real 0 * (3 / 10)) * (5 / 10) + 5 / 10)
        * canvas_height ?cv * (4 / 10)"
    by simp
  then have "bar_h (bars ! 0) = 24" by (simp add: demoDrawEnv_def)
  with p l show "\<exists>bars. fst (drawFrequencyBars demoDrawEnv readyWaveform) = Painted Fallback bars
        \<and> length bars = 96 \<and> bar_h (bars ! 0) = 24"
    by blast
next
  have "canvasRef (readyWaveform\<lparr>canvasRef := None\<rparr>) = None
      \<or> (\<exists>c. canvasRef (readyWaveform\<lparr>canvasRef := None\<rparr>) = Some c \<and> \<not> has2d c)"
    by simp
  with draw_step_paths [where w = "readyWaveform\<lparr>canvasRef := None\<rparr>" and env = demoDrawEnv]
  show "drawFrequencyBars demoDrawEnv (readyWaveform\<lparr>canvasRef := None\<rparr>) =
       (Skipped, readyWaveform\<lparr>canvasRef := None\<rparr>)"
    by blast
qed

section \<open>Engine: seek\<close>

text \<open>
  With a live session, \<open>seekTo 5\<close> itself moves the displayed current time from 0 to 5.
\<close>

theorem seekTo_updates_time_counterexample:
  "currentTime (state liveEngine) = 0
   \<and> currentTime (state (seekTo 5 liveEngine)) = 5
   \<and> currentTime (state (seekTo 5 liveEngine)) \<noteq> currentTime (state liveEngine)"
  by (simp add: seekTo_def dispatch_simps howlCall_simps liveEngine_howl liveEngine_state)

text \<open>
  C8, as the code has it. With a live session, \<open>seekTo t\<close> calls \<open>seek(t)\<close> on the
  resource and also sets the displayed current time to \<open>t\<close>, changing nothing else;
  without a session it changes nothing. The polling tick is the other writer of the
  current time: while playing, once 250 ms have passed since the last update, it stores
  the position read from the resource.
\<close>

theorem seekTo_delegates_and_sets_time:
  "(currentHowl e = Some h \<longrightarrow>
       howlCalls (seekTo t e) = howlCalls e @ [(howl_id h, Seek t)]
     \<and> state (seekTo t e) = (state e)\<lparr>currentTime := t\<rparr>
     \<and> currentHowl (seekTo t e) = currentHowl e)
   \<and> (currentHowl e = None \<longrightarrow> seekTo t e = e)
   \<and> (currentHowl e = Some h \<and> isPlaying (state e) \<and> ts - lastT \<ge> 250 \<longrightarrow>
        updateTime ts (Some pos) lastT e = (e\<lparr>state := (state e)\<lparr>currentTime := pos\<rparr>\<rparr>, ts, True))"
  by (auto simp: seekTo_def updateTime_def dispatch_def howlCall_def Let_def split: option.splits)

theorem seekTo_delegates_and_sets_time_witness:
  "howlCalls (seekTo 5 liveEngine) = [(0, Volume (8 / 10)), (0, Play), (0, Seek 5)]
   \<and> currentTime (state (seekTo 5 liveEngine)) = 5
   \<and> seekTo 5 idleEngine = idleEngine
   \<and> currentTime (state (fst (updateTime 300 (Some 7) 0 liveEngine))) = 7"
  using seekTo_delegates_and_sets_time [where t = 5 and e = liveEngine and ts = 300
        and lastT = 0 and pos = 7
        and h = "\<lparr> howl_id = 0, howl_src = [''blob:a''], howl_html5 = True,
                   howl_format = Some [''mp3''] \<rparr>"]
    seekTo_delegates_and_sets_time [where t = 5 and e = idleEngine]
  by (simp add: liveEngine_howl liveEngine_state idleEngine_def)

section \<open>Sequencer: next when the current index is not in the order\<close>

text \<open>
  C9. With shuffle on, a non-empty order and a current index that does not occur in
  it, the position search yields \<open>-1\<close> and \<open>getNextTrackIndex\<close> returns the first
  element of the order, whatever the repeat mode. This is the state right after
  shuffle was turned on (for at least two tracks, so that the order is non-empty):
  the generated order excludes the current index, and what \<open>nextTrack\<close> computes is
  the first element of the order for every repeat mode.
\<close>

theorem next_index_current_absent:
  "(len \<noteq> 0 \<and> sh \<and> so \<noteq> [] \<and> c \<notin> set so
      \<longrightarrow> findIndex (\<lambda>idx. idx = c) so = - 1
        \<and> getNextTrackIndex c len sh so rep = Some (so ! 0))
   \<and> (\<not> isShuffled (state e) \<and> 0 \<le> currentIndex (state e)
       \<and> currentIndex (state e) < int (length (playlist (state e)))
       \<and> 2 \<le> length (playlist (state e))
       \<and> (\<forall>k. 0 \<le> mathRandom e k \<and> mathRandom e k < 1)
      \<longrightarrow> currentIndex (state (toggleShuffle e)) \<notin> set (shuffledIndices (state (toggleShuffle e)))
        \<and> shuffledIndices (state (toggleShuffle e)) \<noteq> []
        \<and> nextTrack_index ((state (toggleShuffle e))\<lparr>repeatMode := m\<rparr>) =
            Some (shuffledIndices (state (toggleShuffle e)) ! 0))"
proof (intro conjI impI)
  assume a: "len \<noteq> 0 \<and> sh \<and> so \<noteq> [] \<and> c \<notin> set so"
  then show fi: "findIndex (\<lambda>idx. idx = c) so = - 1"
    by (auto simp: findIndex_none)
  from a show "getNextTrackIndex c len sh so rep = Some (so ! 0)"
    by (simp add: getNextTrackIndex_def fi js_nth_def Let_def)
next
  assume a: "\<not> isShuffled (state e) \<and> 0 \<le> currentIndex (state e)
       \<and> currentIndex (state e) < int (length (playlist (state e)))
       \<and> 2 \<le> length (playlist (state e))
       \<and> (\<forall>k. 0 \<le> mathRandom e k \<and> mathRandom e k < 1)"
  let ?g = "fst (generateShuffledIndices (length (playlist (state e)))
                   (currentIndex (state e)) (mathRandom e))"
  have on: "state (toggleShuffle e) = (state e)\<lparr>isShuffled := True, shuffledIndices := ?g\<rparr>"
    using a by (intro toggleShuffle_on) simp
  have s: "set ?g = int ` {0 ..< length (playlist (state e))} - {currentIndex (state e)}"
    using a by (intro generateShuffledIndices_perm) auto
  have l: "length ?g = length (playlist (state e)) - 1"
    using a by (intro generateShuffledIndices_perm) auto
  show notin: "currentIndex (state (toggleShuffle e)) \<notin> set (shuffledIndices (state (toggleShuffle e)))"
    using s by (simp add: on)
  show ne: "shuffledIndices (state (toggleShuffle e)) \<noteq> []"
    using l a by (auto simp: on)
  have fi: "findIndex (\<lambda>idx. idx = currentIndex (state e)) ?g = - 1"
    using s by (auto simp: findIndex_none)
  from ne have "?g \<noteq> []" by (simp add: on)
  moreover from a have "playlist (state e) \<noteq> []" by auto
  ultimately show "nextTrack_index ((state (toggleShuffle e))\<lparr>repeatMode := m\<rparr>) =
            Some (shuffledIndices (state (toggleShuffle e)) ! 0)"
    using a by (simp add: nextTrack_index_def on getNextTrackIndex_def fi js_nth_def Let_def)
qed

theorem next_index_current_absent_witness:
  "getNextTrackIndex 2 5 True [4, 0, 1, 3] RepeatNone = Some 4
   \<and> getNextTrackIndex 2 5 True [4, 0, 1, 3] RepeatAll = Some 4
   \<and> nextTrack_index ((state (toggleShuffle fiveEngine))\<lparr>repeatMode := RepeatNone\<rparr>) = Some 4"
  using next_index_current_absent [where len = 5 and sh = True and so = "[4, 0, 1, 3]"
        and c = 2 and rep = RepeatNone and e = fiveEngine and m = RepeatNone]
    next_index_current_absent [where len = 5 and sh = True and so = "[4, 0, 1, 3]"
        and c = 2 and rep = RepeatAll and e = fiveEngine and m = RepeatNone]
    fiveEngine_rng fiveEngine_toggle
  by (simp add: fiveEngine_def [THEN arg_cong, of state] fiveEngine_def [THEN arg_cong, of mathRandom] initialState_def)

section \<open>Frame of removeFromPlaylist\<close>

text \<open>
  C10. \<open>removeFromPlaylist trackId\<close> changes only the playlist: the new playlist is the old
  one without the tracks whose id is \<open>trackId\<close>, in the old relative order; the current
  track, current index, playing flag, volume, duration, shuffle and repeat state, and
  the live resource are as before, also when the removed track is the current one.
\<close>

theorem removeFromPlaylist_frame:
  "playlist (state (removeFromPlaylist tid e)) =
      filter (\<lambda>t. track_id t \<noteq> tid) (playlist (state e))
   \<and> tid \<notin> track_id ` set (playlist (state (removeFromPlaylist tid e)))
   \<and> subseq (playlist (state (removeFromPlaylist tid e))) (playlist (state e))
   \<and> state (removeFromPlaylist tid e) =
       (state e)\<lparr>playlist := playlist (state (removeFromPlaylist tid e))\<rparr>
   \<and> currentTrack (state (removeFromPlaylist tid e)) = currentTrack (state e)
   \<and> currentIndex (state (removeFromPlaylist tid e)) = currentIndex (state e)
   \<and> isPlaying (state (removeFromPlaylist tid e)) = isPlaying (state e)
   \<and> volume (state (removeFromPlaylist tid e)) = volume (state e)
   \<and> duration (state (removeFromPlaylist tid e)) = duration (state e)
   \<and> isShuffled (state (removeFromPlaylist tid e)) = isShuffled (state e)
   \<and> shuffledIndices (state (removeFromPlaylist tid e)) = shuffledIndices (state e)
   \<and> repeatMode (state (removeFromPlaylist tid e)) = repeatMode (state e)
   \<and> currentHowl (removeFromPlaylist tid e) = currentHowl e
   \<and> howlCalls (removeFromPlaylist tid e) = howlCalls e"
  by (auto simp: removeFromPlaylist_def dispatch_simps)

theorem removeFromPlaylist_frame_witness:
  "playlist (state (removeFromPlaylist ''a'' liveEngine)) = [trackB]
   \<and> currentTrack (state (removeFromPlaylist ''a'' liveEngine)) = Some trackA
   \<and> currentIndex (state (removeFromPlaylist ''a'' liveEngine)) = 0
   \<and> isPlaying (state (removeFromPlaylist ''a'' liveEngine))"
  using removeFromPlaylist_frame [of "''a''" liveEngine]
  by (simp add: liveEngine_state trackA_def trackB_def)

end
